theory Spec2Isabelle
  imports Main "HOL-Library.Sublist" "HOL-Library.Char_ord" "HOL-Library.List_Lexorder"
    "HOL-Library.Product_Lexorder" "HOL-Library.Multiset"
begin

section \<open>Exceptions and outcomes\<close>

text \<open>
  The resilience layer inspects exceptions in two ways only: the retry predicate looks at
  \<^verbatim>\<open>exception.response.status_code\<close> (when both attributes exist) and at membership in the
  tuple of network error classes; the circuit breaker tests \<^verbatim>\<open>isinstance\<close> against its configured
  \<^verbatim>\<open>expected_exception\<close> class. An exception value therefore carries its class name, the status
  code of its response (if it has one), whether it is an instance of one of the network error
  classes (\<^verbatim>\<open>asyncio.TimeoutError\<close>, \<^verbatim>\<open>ConnectionError\<close>, \<^verbatim>\<open>ConnectionResetError\<close>,
  \<^verbatim>\<open>ConnectionAbortedError\<close>), and its message.
\<close>

record exn =
  exn_class :: string
  response_status :: "int option"
  network_error :: bool
  exn_message :: string

datatype 'a outcome = Returned 'a | Raised exn

section \<open>Circuit breaker (src/resilience/circuit\_breaker.py)\<close>

datatype CircuitState = CLOSED | OPEN | HALF_OPEN

text \<open>
  The fields of class \<^verbatim>\<open>CircuitBreaker\<close>. Times are readings of \<^verbatim>\<open>datetime.utcnow()\<close> in whole
  microseconds (the resolution of \<^verbatim>\<open>datetime\<close>); \<open>lock_held\<close> is the state of the
  \<^verbatim>\<open>asyncio.Lock\<close> stored in \<^verbatim>\<open>_lock\<close>.
\<close>

record CircuitBreaker =
  name :: string
  failure_threshold :: int
  recovery_timeout :: int
  expected_exception :: "exn \<Rightarrow> bool"
  half_open_max_calls :: int
  state :: CircuitState
  failure_count :: int
  last_failure_time :: "int option"
  success_count :: int
  half_open_calls :: int
  lock_held :: bool

definition new_breaker :: "string \<Rightarrow> int \<Rightarrow> int \<Rightarrow> (exn \<Rightarrow> bool) \<Rightarrow> int \<Rightarrow> CircuitBreaker" where
  "new_breaker nm ft rt ee hm =
     \<lparr>name = nm, failure_threshold = ft, recovery_timeout = rt, expected_exception = ee,
      half_open_max_calls = hm, state = CLOSED, failure_count = 0, last_failure_time = None,
      success_count = 0, half_open_calls = 0, lock_held = False\<rparr>"

text \<open>
  \<^verbatim>\<open>async with self._lock\<close>: the lock is not reentrant. Acquiring a free lock takes it; acquiring
  a held lock waits until the holder releases it. The model follows one task, so a wait on a
  held lock is a wait on the task itself and never ends: \<open>None\<close> is the call that does not
  return.
\<close>

definition acquire :: "CircuitBreaker \<Rightarrow> CircuitBreaker option" where
  "acquire b = (if lock_held b then None else Some (b\<lparr>lock_held := True\<rparr>))"

definition release :: "CircuitBreaker \<Rightarrow> CircuitBreaker" where
  "release b = b\<lparr>lock_held := False\<rparr>"

definition should_attempt_recovery :: "int \<Rightarrow> CircuitBreaker \<Rightarrow> bool" where
  "should_attempt_recovery now b =
     (case last_failure_time b of
        None \<Rightarrow> True
      | Some t \<Rightarrow> now - t \<ge> recovery_timeout b * 1000000)"

definition open_circuit :: "CircuitBreaker \<Rightarrow> CircuitBreaker" where
  "open_circuit b = b\<lparr>state := OPEN\<rparr>"

definition close_circuit :: "CircuitBreaker \<Rightarrow> CircuitBreaker" where
  "close_circuit b = b\<lparr>state := CLOSED, failure_count := 0, success_count := 0\<rparr>"

definition circuit_open_error :: "CircuitBreaker \<Rightarrow> exn" where
  "circuit_open_error b =
     \<lparr>exn_class = ''Exception'', response_status = None, network_error = False,
      exn_message = ''Circuit breaker '' @ name b @ '' is OPEN''\<rparr>"

text \<open>Lines 55 to 62 of \<^verbatim>\<open>call\<close>: the check made on an open breaker.\<close>

definition check_recovery :: "int \<Rightarrow> CircuitBreaker \<Rightarrow> exn + CircuitBreaker" where
  "check_recovery now b =
     (if state b = OPEN then
        (if should_attempt_recovery now b
         then Inr (b\<lparr>state := HALF_OPEN, half_open_calls := 0\<rparr>)
         else Inl (circuit_open_error b))
      else Inr b)"

definition on_success :: "CircuitBreaker \<Rightarrow> CircuitBreaker option" where
  "on_success b =
     (case acquire b of
        None \<Rightarrow> None
      | Some b1 \<Rightarrow>
          (let b2 = (if state b1 = HALF_OPEN then b1\<lparr>success_count := success_count b1 + 1\<rparr> else b1);
               b3 = (if state b2 = CLOSED then b2\<lparr>failure_count := 0\<rparr> else b2)
           in Some (release b3)))"

definition on_failure :: "int \<Rightarrow> CircuitBreaker \<Rightarrow> CircuitBreaker option" where
  "on_failure now b =
     (case acquire b of
        None \<Rightarrow> None
      | Some b1 \<Rightarrow>
          (let b2 = b1\<lparr>last_failure_time := Some now\<rparr>;
               b3 = (if state b2 = CLOSED then
                       (let b' = b2\<lparr>failure_count := failure_count b2 + 1\<rparr>
                        in if failure_count b' \<ge> failure_threshold b' then open_circuit b' else b')
                     else if state b2 = HALF_OPEN then open_circuit b2
                     else b2)
           in Some (release b3)))"

text \<open>
  Lines 78 to 91: the protected function runs outside the lock. The function is a state
  transformer on a world \<open>'w\<close> (whatever it touches: the transport, a call counter), and the
  clock is read from the world.
\<close>

definition execute ::
  "('w \<Rightarrow> int) \<Rightarrow> ('w \<Rightarrow> 'a outcome \<times> 'w) \<Rightarrow> CircuitBreaker \<Rightarrow> 'w
     \<Rightarrow> ('a outcome \<times> CircuitBreaker \<times> 'w) option" where
  "execute clock func b w =
     (case func w of
        (Returned v, w') \<Rightarrow>
          (case on_success b of None \<Rightarrow> None | Some b' \<Rightarrow> Some (Returned v, b', w'))
      | (Raised e, w') \<Rightarrow>
          (if expected_exception b e then
             (case on_failure (clock w') b of None \<Rightarrow> None | Some b' \<Rightarrow> Some (Raised e, b', w'))
           else Some (Raised e, b, w')))"

text \<open>
  \<^verbatim>\<open>CircuitBreaker.call\<close>. The recursive call of line 74 is made inside the \<^verbatim>\<open>async with\<close>
  block, with the lock still held; the lock is released when the block is left, by a return
  or by an exception.
\<close>

function call ::
  "('w \<Rightarrow> int) \<Rightarrow> ('w \<Rightarrow> 'a outcome \<times> 'w) \<Rightarrow> CircuitBreaker \<Rightarrow> 'w
     \<Rightarrow> ('a outcome \<times> CircuitBreaker \<times> 'w) option" where
  "call clock func b w =
     (case acquire b of
        None \<Rightarrow> None
      | Some b1 \<Rightarrow>
          (case check_recovery (clock w) b1 of
             Inl e \<Rightarrow> Some (Raised e, release b1, w)
           | Inr b2 \<Rightarrow>
               (if state b2 = HALF_OPEN \<and> half_open_calls b2 \<ge> half_open_max_calls b2 then
                  (case call clock func
                          (if success_count b2 > 0 then close_circuit b2 else open_circuit b2) w of
                     None \<Rightarrow> None
                   | Some (r, b4, w') \<Rightarrow> Some (r, release b4, w'))
                else
                  execute clock func
                    (release (if state b2 = HALF_OPEN
                              then b2\<lparr>half_open_calls := half_open_calls b2 + 1\<rparr> else b2)) w)))"
  by pat_completeness auto
termination
  by (relation "measure (\<lambda>(clock, func, b, w). if lock_held b then 0 else 1)")
     (auto simp: acquire_def check_recovery_def close_circuit_def open_circuit_def
           split: if_splits)

declare call.simps [simp del]

text \<open>
  A caller issuing consecutive calls through one breaker. The world is a pair of the clock
  reading and whatever the protected function keeps (for a transport, the number of requests
  it has received); the caller sets the clock reading of each call.
\<close>

fun calls_at ::
  "(int \<times> 'h \<Rightarrow> 'a outcome \<times> (int \<times> 'h)) \<Rightarrow> CircuitBreaker \<Rightarrow> 'h \<Rightarrow> int list
     \<Rightarrow> ('a outcome list \<times> CircuitBreaker \<times> 'h) option" where
  "calls_at func b h [] = Some ([], b, h)"
| "calls_at func b h (t # ts) =
     (case call fst func b (t, h) of
        None \<Rightarrow> None
      | Some (r, b', w') \<Rightarrow>
          (case calls_at func b' (snd w') ts of
             None \<Rightarrow> None
           | Some (rs, b'', h'') \<Rightarrow> Some (r # rs, b'', h'')))"

definition http_error :: "int \<Rightarrow> exn" where
  "http_error s =
     \<lparr>exn_class = ''HTTPStatusError'', response_status = Some s, network_error = False,
      exn_message = []\<rparr>"


text \<open>A transport that answers its first request with a 503 and every later one normally.\<close>

definition transport_recovering :: "int \<times> nat \<Rightarrow> unit outcome \<times> (int \<times> nat)" where
  "transport_recovering w =
     (if snd w = 0 then Raised (http_error 503) else Returned (), (fst w, snd w + 1))"

section \<open>Retry executor (src/resilience/retry.py)\<close>













section \<open>Credentials (src/auth/base.py)\<close>

text \<open>
  \<^verbatim>\<open>Token\<close>. \<open>expires_at\<close> is a \<^verbatim>\<open>datetime\<close>, here in whole microseconds like every clock
  reading. \<^verbatim>\<open>timedelta.total_seconds()\<close> is the microseconds divided by \<open>10^6\<close>, and \<^verbatim>\<open>int\<close>
  of a positive value drops the fraction.
\<close>

record Token =
  token_value :: string
  expires_at :: "int option"
  token_type :: string
  refresh_token :: "string option"

definition is_expired :: "int \<Rightarrow> Token \<Rightarrow> bool" where
  "is_expired now tok = (case expires_at tok of None \<Rightarrow> False | Some e \<Rightarrow> now \<ge> e)"

definition expires_in_seconds :: "int \<Rightarrow> Token \<Rightarrow> int option" where
  "expires_in_seconds now tok =
     (case expires_at tok of
        None \<Rightarrow> None
      | Some e \<Rightarrow> Some (if e - now > 0 then (e - now) div 1000000 else 0))"

text \<open>
  Python's truth value of \<^verbatim>\<open>expires_in_seconds\<close> in the condition of line 70: \<^verbatim>\<open>None\<close> and
  \<open>0\<close> are false.
\<close>

definition truthy :: "int option \<Rightarrow> bool" where
  "truthy x = (case x of None \<Rightarrow> False | Some n \<Rightarrow> n \<noteq> 0)"

text \<open>
  \<^verbatim>\<open>AuthClient.get_token\<close>. \<^verbatim>\<open>authenticate\<close> and \<^verbatim>\<open>refresh\<close> are the abstract methods of
  the client: they talk to the token endpoint (the world \<open>'w\<close>) and return a token or raise.
  The clock is read from the world; the checks between two awaits take no time. The result
  is the value returned or the exception raised, the client's \<^verbatim>\<open>_token\<close> afterwards, the
  world, and the events the method logged, in order: an event is logged exactly before each
  attempt to authenticate or refresh.
\<close>

definition get_token ::
  "('w \<Rightarrow> int) \<Rightarrow> ('w \<Rightarrow> Token outcome \<times> 'w) \<Rightarrow> ('w \<Rightarrow> Token outcome \<times> 'w)
     \<Rightarrow> Token option \<Rightarrow> 'w \<Rightarrow> string outcome \<times> Token option \<times> 'w \<times> string list" where
  "get_token clock authenticate refresh tok w =
     (case tok of
        None \<Rightarrow>
          (case authenticate w of
             (Returned t', w') \<Rightarrow>
               (Returned (token_value t'), Some t', w', [''performing_initial_authentication''])
           | (Raised e, w') \<Rightarrow> (Raised e, None, w', [''performing_initial_authentication'']))
      | Some t \<Rightarrow>
          (if is_expired (clock w) t then
             (case refresh w of
                (Returned t', w') \<Rightarrow>
                  (Returned (token_value t'), Some t', w', [''token_expired_refreshing''])
              | (Raised e, w') \<Rightarrow>
                  (case authenticate w' of
                     (Returned t', w'') \<Rightarrow>
                       (Returned (token_value t'), Some t', w'',
                        [''token_expired_refreshing'', ''refresh_failed_reauthenticating''])
                   | (Raised e', w'') \<Rightarrow>
                       (Raised e', Some t, w'',
                        [''token_expired_refreshing'', ''refresh_failed_reauthenticating''])))
           else if truthy (expires_in_seconds (clock w) t)
                   \<and> (case expires_in_seconds (clock w) t of None \<Rightarrow> False | Some s \<Rightarrow> s < 300)
           then
             (case refresh w of
                (Returned t', w') \<Rightarrow>
                  (Returned (token_value t'), Some t', w', [''token_expiring_soon_refreshing''])
              | (Raised e, w') \<Rightarrow>
                  (Returned (token_value t), Some t, w', [''token_expiring_soon_refreshing'']))
           else (Returned (token_value t), Some t, w, [])))"

text \<open>A token is fresh when its expiry is strictly later than now; a token without expiry never expires.\<close>

definition fresh :: "int \<Rightarrow> Token \<Rightarrow> bool" where
  "fresh now tok = (case expires_at tok of None \<Rightarrow> True | Some e \<Rightarrow> now < e)"

text \<open>A token endpoint that counts its requests and issues a token valid for one hour.\<close>

definition issue_token :: "int \<times> nat \<Rightarrow> Token outcome \<times> (int \<times> nat)" where
  "issue_token w =
     (Returned \<lparr>token_value = ''new'', expires_at = Some (fst w + 3600000000),
                token_type = ''Bearer'', refresh_token = None\<rparr>, (fst w, snd w + 1))"


section \<open>Rate limiter (src/cache/manager.py, src/cache/redis\_cache.py)\<close>

text \<open>
  The counter of one provider and client lives under one key of the key-value store. The
  store's entry for that key is absent or holds the count and, if the key has a time to live,
  the time (in milliseconds) at which it expires; a key is gone once the time is past its
  expiry. Every operation of \<^verbatim>\<open>RedisCache\<close> is one round trip to the store, made at some
  time; when the store does not answer (\<open>up\<close> is false) the wrapper catches the error and
  returns \<^verbatim>\<open>None\<close> or \<^verbatim>\<open>False\<close>, and the store is unchanged.
\<close>

type_synonym counter = "(int \<times> int option) option"

definition redis_get :: "bool \<Rightarrow> int \<Rightarrow> counter \<Rightarrow> int option" where
  "redis_get up now st =
     (if \<not> up then None
      else (case st of
              None \<Rightarrow> None
            | Some (v, None) \<Rightarrow> Some v
            | Some (v, Some e) \<Rightarrow> if now \<le> e then Some v else None))"

text \<open>
  \<^verbatim>\<open>RedisCache.set(key, 1, window)\<close>: \<^verbatim>\<open>setex\<close> when the time to live is non-zero, a plain
  \<^verbatim>\<open>set\<close> when it is zero; a negative time to live is refused by the store and the error is
  swallowed.
\<close>

definition redis_set :: "bool \<Rightarrow> int \<Rightarrow> int \<Rightarrow> int \<Rightarrow> counter \<Rightarrow> counter" where
  "redis_set up now v ttl st =
     (if \<not> up then st
      else if ttl = 0 then Some (v, None)
      else if ttl < 0 then st
      else Some (v, Some (now + ttl * 1000)))"

text \<open>\<^verbatim>\<open>incr\<close> keeps the expiry of a live key and creates a missing key without one.\<close>

definition redis_incr :: "bool \<Rightarrow> int \<Rightarrow> counter \<Rightarrow> int option \<times> counter" where
  "redis_incr up now st =
     (if \<not> up then (None, st)
      else (case st of
              None \<Rightarrow> (Some 1, Some (1, None))
            | Some (v, ex) \<Rightarrow>
                (case redis_get True now st of
                   None \<Rightarrow> (Some 1, Some (1, None))
                 | Some _ \<Rightarrow> (Some (v + 1), Some (v + 1, ex)))))"

text \<open>\<^verbatim>\<open>get_ttl\<close>: the remaining seconds, rounded by the store; \<^verbatim>\<open>None\<close> without key or expiry.\<close>

definition redis_get_ttl :: "bool \<Rightarrow> int \<Rightarrow> counter \<Rightarrow> int option" where
  "redis_get_ttl up now st =
     (if \<not> up then None
      else (case st of
              None \<Rightarrow> None
            | Some (v, None) \<Rightarrow> None
            | Some (v, Some e) \<Rightarrow> if now \<le> e then Some ((e - now + 500) div 1000) else None))"

text \<open>
  \<^verbatim>\<open>CacheManager.check_rate_limit\<close> makes two round trips, and other requests may reach the
  store between them. The first (line 140) reads the count. The second (lines 141 to 154)
  acts on the value that was read: it creates the counter, or reads its time to live, or
  increments it. \<open>limit\<close> is the provider's ceiling and \<open>window\<close> the setting
  \<^verbatim>\<open>rate_limit_window\<close> in seconds. When the increment is not answered, \<^verbatim>\<open>limit - new_count\<close>
  raises \<^verbatim>\<open>TypeError\<close>.
\<close>

definition rate_limit_read :: "bool \<Rightarrow> int \<Rightarrow> counter \<Rightarrow> int option" where
  "rate_limit_read up now st = redis_get up now st"

definition type_error :: exn where
  "type_error =
     \<lparr>exn_class = ''TypeError'', response_status = None, network_error = False,
      exn_message = ''unsupported operand type(s)''\<rparr>"

definition rate_limit_decide ::
  "int \<Rightarrow> int \<Rightarrow> bool \<Rightarrow> int \<Rightarrow> int option \<Rightarrow> counter \<Rightarrow> (exn + bool \<times> int) \<times> counter" where
  "rate_limit_decide limit window up now current st =
     (case current of
        None \<Rightarrow> (Inr (True, 1), redis_set up now 1 window st)
      | Some current_count \<Rightarrow>
          (if current_count \<ge> limit then
             (Inr (False, (case redis_get_ttl up now st of
                             None \<Rightarrow> window
                           | Some ttl \<Rightarrow> if ttl = 0 then window else ttl)), st)
           else
             (case redis_incr up now st of
                (None, st') \<Rightarrow> (Inl type_error, st')
              | (Some new_count, st') \<Rightarrow> (Inr (True, limit - new_count), st'))))"

text \<open>
  One call whose two round trips reach the store with no other request in between; each
  round trip has its time and whether the store answers it.
\<close>

record round_trips =
  read_up :: bool
  read_time :: int
  write_up :: bool
  write_time :: int

definition check_rate_limit ::
  "int \<Rightarrow> int \<Rightarrow> round_trips \<Rightarrow> counter \<Rightarrow> (exn + bool \<times> int) \<times> counter" where
  "check_rate_limit limit window rt st =
     rate_limit_decide limit window (write_up rt) (write_time rt)
       (rate_limit_read (read_up rt) (read_time rt) st) st"

definition admitted :: "exn + bool \<times> int \<Rightarrow> bool" where
  "admitted r = (case r of Inl e \<Rightarrow> False | Inr (ok, n) \<Rightarrow> ok)"

text \<open>A call made at one instant, answered or not.\<close>

definition at_instant :: "bool \<Rightarrow> int \<Rightarrow> round_trips" where
  "at_instant up t = \<lparr>read_up = up, read_time = t, write_up = up, write_time = t\<rparr>"

text \<open>
  A sequence of calls, each finished before the next begins: whether each was admitted, in
  order, and the store afterwards.
\<close>

fun admit_all :: "int \<Rightarrow> int \<Rightarrow> counter \<Rightarrow> round_trips list \<Rightarrow> bool list \<times> counter" where
  "admit_all limit window st [] = ([], st)"
| "admit_all limit window st (rt # rts) =
     (case check_rate_limit limit window rt st of
        (r, st') \<Rightarrow>
          (case admit_all limit window st' rts of
             (rs, st'') \<Rightarrow> (admitted r # rs, st'')))"

text \<open>The number of admitted calls made at a time in the window \<open>[s, s + len)\<close>.\<close>

definition admitted_within :: "int \<Rightarrow> int \<Rightarrow> int list \<Rightarrow> bool list \<Rightarrow> nat" where
  "admitted_within s len ts rs =
     length (filter (\<lambda>(t, ok). ok \<and> s \<le> t \<and> t < s + len) (zip ts rs))"

section \<open>Search fusion (src/tools/search\_companies.py, src/models/company.py)\<close>

text \<open>
  \<^verbatim>\<open>Address\<close> and \<^verbatim>\<open>CompanySearchResult\<close>. Coordinates are only ever copied or dropped and are
  kept as fixed-point numbers; a date is year, month and day. The record has the declared
  fields of the model and no others.
\<close>

record Address =
  street :: "string option"
  postal_code :: string
  city :: string
  latitude :: "int option"
  longitude :: "int option"

record CompanySearchResult =
  siren :: string
  siret :: "string option"
  name :: string
  legal_form :: "string option"
  naf_code :: "string option"
  employee_range :: "string option"
  address :: "Address option"
  creation_date :: "(int \<times> int \<times> int) option"
  is_active :: bool
  is_headquarters :: "bool option"
  source :: string

definition source_priority :: "string \<Rightarrow> int" where
  "source_priority s =
     (if s = ''inpi_rne'' then 5
      else if s = ''insee_sirene'' then 4
      else if s = ''recherche_entreprises'' then 3
      else if s = ''rna'' then 2
      else if s = ''sirene'' then 1
      else 0)"

definition or_else :: "'a option \<Rightarrow> 'a option \<Rightarrow> 'a option" where
  "or_else x y = (case x of None \<Rightarrow> y | Some v \<Rightarrow> Some v)"

text \<open>
  The loop of lines 289 to 291 (and 295 to 297): every field of the winner that is \<^verbatim>\<open>None\<close>
  takes the other record's value. \<^verbatim>\<open>siren\<close>, \<^verbatim>\<open>name\<close>, \<^verbatim>\<open>is_active\<close> and \<^verbatim>\<open>source\<close> are never
  \<^verbatim>\<open>None\<close>, and \<^verbatim>\<open>.dict()\<close> lists the declared fields only.
\<close>

definition fill_missing :: "CompanySearchResult \<Rightarrow> CompanySearchResult \<Rightarrow> CompanySearchResult" where
  "fill_missing winner other =
     winner\<lparr>siret := or_else (siret winner) (siret other),
            legal_form := or_else (legal_form winner) (legal_form other),
            naf_code := or_else (naf_code winner) (naf_code other),
            employee_range := or_else (employee_range winner) (employee_range other),
            address := or_else (address winner) (address other),
            creation_date := or_else (creation_date winner) (creation_date other),
            is_headquarters := or_else (is_headquarters winner) (is_headquarters other)\<rparr>"

definition merge_company_data :: "CompanySearchResult \<Rightarrow> CompanySearchResult \<Rightarrow> CompanySearchResult" where
  "merge_company_data existing new_data =
     (if source_priority (source new_data) > source_priority (source existing)
      then fill_missing new_data existing
      else fill_missing existing new_data)"

text \<open>
  \<^verbatim>\<open>merged_map\<close> is a dictionary in insertion order: assigning to a key that is present
  keeps its place.
\<close>

fun dict_get :: "('k \<times> 'v) list \<Rightarrow> 'k \<Rightarrow> 'v option" where
  "dict_get [] k = None"
| "dict_get ((k', v) # kvs) k = (if k' = k then Some v else dict_get kvs k)"

fun dict_set :: "('k \<times> 'v) list \<Rightarrow> 'k \<Rightarrow> 'v \<Rightarrow> ('k \<times> 'v) list" where
  "dict_set [] k v = [(k, v)]"
| "dict_set ((k', v') # kvs) k v = (if k' = k then (k, v) # kvs else (k', v') # dict_set kvs k v)"

text \<open>Lines 232 to 243, for one record: the state is \<^verbatim>\<open>merged_map\<close> and \<^verbatim>\<open>seen_sirens\<close>.\<close>

definition merge_one ::
  "(string \<times> CompanySearchResult) list \<times> string set \<Rightarrow> CompanySearchResult
     \<Rightarrow> (string \<times> CompanySearchResult) list \<times> string set" where
  "merge_one st company =
     (case st of (merged_map, seen_sirens) \<Rightarrow>
        (if siren company \<noteq> [] \<and> siren company \<notin> seen_sirens
         then (dict_set merged_map (siren company) company, insert (siren company) seen_sirens)
         else (case dict_get merged_map (siren company) of
                 Some existing \<Rightarrow>
                   (dict_set merged_map (siren company) (merge_company_data existing company),
                    seen_sirens)
               | None \<Rightarrow> (merged_map, seen_sirens))))"

text \<open>
  Lines 225 to 243. A source's result is \<open>None\<close> when the source raised or returned no
  \<^verbatim>\<open>results\<close> entry, and is skipped.
\<close>

definition merge_sources ::
  "CompanySearchResult list option list \<Rightarrow> (string \<times> CompanySearchResult) list" where
  "merge_sources results =
     fst (fold (\<lambda>source_result st.
                  case source_result of None \<Rightarrow> st | Some cs \<Rightarrow> fold (\<lambda>c s. merge_one s c) cs st)
               results ([], {}))"

text \<open>
  Lines 249 to 255: the relevance score. \<^verbatim>\<open>str.lower\<close> is Python's own function on Unicode
  text and is taken as the parameter \<open>to_lower\<close>.
\<close>

definition name_contains :: "(string \<Rightarrow> string) \<Rightarrow> string \<Rightarrow> CompanySearchResult \<Rightarrow> bool" where
  "name_contains to_lower query company =
     (name company \<noteq> [] \<and> sublist (to_lower query) (to_lower (name company)))"

definition key_starts_with :: "string \<Rightarrow> CompanySearchResult \<Rightarrow> bool" where
  "key_starts_with query company = (siren company \<noteq> [] \<and> prefix query (siren company))"

definition relevance :: "(string \<Rightarrow> string) \<Rightarrow> string \<Rightarrow> CompanySearchResult \<Rightarrow> int" where
  "relevance to_lower query company =
     (if name_contains to_lower query company then 10 else 0)
     + (if key_starts_with query company then 5 else 0)"

text \<open>
  Line 256, \<^verbatim>\<open>company.relevance_score = score\<close>. \<^verbatim>\<open>CompanySearchResult\<close> is a pydantic model
  that declares no field \<^verbatim>\<open>relevance_score\<close> and does not allow extra attributes, and
  assigning to such a name raises \<^verbatim>\<open>ValueError\<close>.
\<close>

definition no_field_error :: "string \<Rightarrow> string \<Rightarrow> exn" where
  "no_field_error cls field =
     \<lparr>exn_class = ''ValueError'', response_status = None, network_error = False,
      exn_message = [CHR 0x22] @ cls @ [CHR 0x22] @ '' object has no field ''
                    @ [CHR 0x22] @ field @ [CHR 0x22]\<rparr>"

definition set_relevance_score :: "CompanySearchResult \<Rightarrow> int \<Rightarrow> exn + CompanySearchResult" where
  "set_relevance_score company score =
     Inl (no_field_error ''CompanySearchResult'' ''relevance_score'')"

text \<open>Lines 250 to 256: the loop over the merged list stops at the first exception.\<close>

fun score_all ::
  "(string \<Rightarrow> string) \<Rightarrow> string \<Rightarrow> CompanySearchResult list
     \<Rightarrow> exn + CompanySearchResult list" where
  "score_all to_lower query [] = Inr []"
| "score_all to_lower query (company # rest) =
     (case set_relevance_score company (relevance to_lower query company) of
        Inl e \<Rightarrow> Inl e
      | Inr company' \<Rightarrow>
          (case score_all to_lower query rest of
             Inl e \<Rightarrow> Inl e
           | Inr rest' \<Rightarrow> Inr (company' # rest')))"

text \<open>
  Lines 259 to 261: \<^verbatim>\<open>getattr(x, 'relevance_score', 0)\<close> finds no such attribute and yields 0;
  \<^verbatim>\<open>list.sort\<close> is stable, as is \<open>sort_key\<close>.
\<close>

definition sort_key_of :: "CompanySearchResult \<Rightarrow> int \<times> string" where
  "sort_key_of x = (- 0, name x)"

text \<open>A slice \<^verbatim>\<open>xs[start:stop]\<close>; a negative index counts from the end.\<close>

definition py_slice :: "'a list \<Rightarrow> int \<Rightarrow> int \<Rightarrow> 'a list" where
  "py_slice xs start stop =
     (let n = int (length xs);
          clip = (\<lambda>i. if i < 0 then max 0 (n + i) else min i n);
          a = clip start; b = clip stop
      in take (nat (b - a)) (drop (nat a) xs))"

text \<open>\<^verbatim>\<open>_merge_search_results\<close>: the merge, the scoring loop, the sort and the page.\<close>

definition merge_search_results ::
  "(string \<Rightarrow> string) \<Rightarrow> CompanySearchResult list option list \<Rightarrow> string \<Rightarrow> int \<Rightarrow> int
     \<Rightarrow> exn + CompanySearchResult list" where
  "merge_search_results to_lower results query page per_page =
     (case score_all to_lower query (map snd (merge_sources results)) of
        Inl e \<Rightarrow> Inl e
      | Inr merged_list \<Rightarrow>
          (let start_idx = (page - 1) * per_page;
               end_idx = start_idx + per_page
           in Inr (py_slice (sort_key sort_key_of merged_list) start_idx end_idx)))"

text \<open>Two records for the query \<open>123\<close>: the first matches by its key only, the second by its name only.\<close>

definition key_match_only :: CompanySearchResult where
  "key_match_only =
     \<lparr>siren = ''123456789'', siret = None, name = ''ZETA'', legal_form = None, naf_code = None,
      employee_range = None, address = None, creation_date = None, is_active = True,
      is_headquarters = None, source = ''recherche_entreprises''\<rparr>"

definition name_match_only :: CompanySearchResult where
  "name_match_only =
     \<lparr>siren = ''987654321'', siret = None, name = ''GROUPE 123 SA'', legal_form = None,
      naf_code = None, employee_range = None, address = None, creation_date = None,
      is_active = True, is_headquarters = None, source = ''recherche_entreprises''\<rparr>"




section \<open>Cache keys (src/cache/manager.py)\<close>

subsection \<open>MD5\<close>

text \<open>
  \<^verbatim>\<open>hashlib.md5\<close> is the MD5 message digest of RFC 1321. Words are 32 bits, kept in \<open>int\<close>
  with the reduction modulo \<open>2^32\<close> written out. A message is a list of bytes.
\<close>

definition w32 :: "int \<Rightarrow> int" where
  "w32 x = x mod 4294967296"

definition not32 :: "int \<Rightarrow> int" where
  "not32 x = 4294967295 - x"

definition rotl32 :: "int \<Rightarrow> nat \<Rightarrow> int" where
  "rotl32 x n = w32 (x * 2 ^ n) + x div 2 ^ (32 - n)"

text \<open>
  The 64 steps: for each the round (0 to 3), the index of the message word, the rotation
  and the additive constant \<open>floor (2^32 * abs (sin (i + 1)))\<close>.
\<close>

definition md5_table :: "(nat \<times> nat \<times> nat \<times> int) list" where
  "md5_table =
     [
      (0, 0, 7, 3614090360), (0, 1, 12, 3905402710), (0, 2, 17, 606105819), (0, 3, 22, 3250441966),
      (0, 4, 7, 4118548399), (0, 5, 12, 1200080426), (0, 6, 17, 2821735955), (0, 7, 22, 4249261313),
      (0, 8, 7, 1770035416), (0, 9, 12, 2336552879), (0, 10, 17, 4294925233), (0, 11, 22, 2304563134),
      (0, 12, 7, 1804603682), (0, 13, 12, 4254626195), (0, 14, 17, 2792965006), (0, 15, 22, 1236535329),
      (1, 1, 5, 4129170786), (1, 6, 9, 3225465664), (1, 11, 14, 643717713), (1, 0, 20, 3921069994),
      (1, 5, 5, 3593408605), (1, 10, 9, 38016083), (1, 15, 14, 3634488961), (1, 4, 20, 3889429448),
      (1, 9, 5, 568446438), (1, 14, 9, 3275163606), (1, 3, 14, 4107603335), (1, 8, 20, 1163531501),
      (1, 13, 5, 2850285829), (1, 2, 9, 4243563512), (1, 7, 14, 1735328473), (1, 12, 20, 2368359562),
      (2, 5, 4, 4294588738), (2, 8, 11, 2272392833), (2, 11, 16, 1839030562), (2, 14, 23, 4259657740),
      (2, 1, 4, 2763975236), (2, 4, 11, 1272893353), (2, 7, 16, 4139469664), (2, 10, 23, 3200236656),
      (2, 13, 4, 681279174), (2, 0, 11, 3936430074), (2, 3, 16, 3572445317), (2, 6, 23, 76029189),
      (2, 9, 4, 3654602809), (2, 12, 11, 3873151461), (2, 15, 16, 530742520), (2, 2, 23, 3299628645),
      (3, 0, 6, 4096336452), (3, 7, 10, 1126891415), (3, 14, 15, 2878612391), (3, 5, 21, 4237533241),
      (3, 12, 6, 1700485571), (3, 3, 10, 2399980690), (3, 10, 15, 4293915773), (3, 1, 21, 2240044497),
      (3, 8, 6, 1873313359), (3, 15, 10, 4264355552), (3, 6, 15, 2734768916), (3, 13, 21, 1309151649),
      (3, 4, 6, 4149444226), (3, 11, 10, 3174756917), (3, 2, 15, 718787259), (3, 9, 21, 3951481745)]"

definition md5_step ::
  "int list \<Rightarrow> nat \<times> nat \<times> nat \<times> int \<Rightarrow> int \<times> int \<times> int \<times> int \<Rightarrow> int \<times> int \<times> int \<times> int" where
  "md5_step m step st =
     (case step of (r, g, s, k) \<Rightarrow>
      (case st of (a, b, c, d) \<Rightarrow>
        (let f = (if r = 0 then or (and b c) (and (not32 b) d)
                  else if r = 1 then or (and d b) (and (not32 d) c)
                  else if r = 2 then xor (xor b c) d
                  else xor c (or b (not32 d)))
         in (d, w32 (b + rotl32 (w32 (a + f + k + m ! g)) s), b, c))))"

text \<open>Bytes to words and back, least significant byte first.\<close>

fun le_words :: "int list \<Rightarrow> int list" where
  "le_words (b0 # b1 # b2 # b3 # bs) =
     (b0 + 256 * b1 + 65536 * b2 + 16777216 * b3) # le_words bs"
| "le_words bs = []"

definition le_bytes :: "nat \<Rightarrow> int \<Rightarrow> int list" where
  "le_bytes n x = map (\<lambda>i. (x div 256 ^ i) mod 256) [0..<n]"

definition md5_pad :: "int list \<Rightarrow> int list" where
  "md5_pad msg =
     msg @ [128] @ replicate ((119 - length msg mod 64) mod 64) 0
         @ le_bytes 8 ((int (length msg) * 8) mod 18446744073709551616)"

definition md5_block :: "int \<times> int \<times> int \<times> int \<Rightarrow> int list \<Rightarrow> int \<times> int \<times> int \<times> int" where
  "md5_block st block =
     (case st of (a0, b0, c0, d0) \<Rightarrow>
       (case fold (md5_step (le_words block)) md5_table st of (a, b, c, d) \<Rightarrow>
          (w32 (a0 + a), w32 (b0 + b), w32 (c0 + c), w32 (d0 + d))))"

fun md5_blocks :: "nat \<Rightarrow> int \<times> int \<times> int \<times> int \<Rightarrow> int list \<Rightarrow> int \<times> int \<times> int \<times> int" where
  "md5_blocks 0 st bs = st"
| "md5_blocks (Suc n) st bs = md5_blocks n (md5_block st (take 64 bs)) (drop 64 bs)"

definition md5_digest :: "int list \<Rightarrow> int list" where
  "md5_digest msg =
     (case md5_blocks (length (md5_pad msg) div 64)
             (1732584193, 4023233417, 2562383102, 271733878) (md5_pad msg) of
        (a, b, c, d) \<Rightarrow> le_bytes 4 a @ le_bytes 4 b @ le_bytes 4 c @ le_bytes 4 d)"

definition hex_digit :: "int \<Rightarrow> char" where
  "hex_digit n = ''0123456789abcdef'' ! nat n"

definition hex_byte :: "int \<Rightarrow> string" where
  "hex_byte b = [hex_digit (b div 16), hex_digit (b mod 16)]"

text \<open>
  \<^verbatim>\<open>stable_str.encode()\<close> is UTF-8. A character of a \<open>string\<close> is a code point below 256: one
  byte below 128, two bytes from 128 on.
\<close>

definition utf8 :: "char \<Rightarrow> int list" where
  "utf8 c =
     (if (of_char c :: nat) < 128 then [int (of_char c)]
      else [192 + int (of_char c) div 64, 128 + int (of_char c) mod 64])"

definition encode :: "string \<Rightarrow> int list" where
  "encode s = concat (map utf8 s)"

text \<open>\<^verbatim>\<open>hexdigest()\<close>.\<close>

definition md5_hexdigest :: "string \<Rightarrow> string" where
  "md5_hexdigest s = concat (map hex_byte (md5_digest (encode s)))"

subsection \<open>Canonical JSON\<close>

text \<open>
  The values \<^verbatim>\<open>json.dumps\<close> writes without help: \<^verbatim>\<open>None\<close>, booleans, integers, strings, lists
  and dictionaries with string keys. A dictionary is its list of items in insertion order,
  with distinct keys.
\<close>

datatype json = JNull | JBool bool | JInt int | JStr string | JList "json list"
  | JDict "(string \<times> json) list"

fun digits_of :: "nat \<Rightarrow> string" where
  "digits_of n =
     (if n < 10 then [''0123456789'' ! n]
      else digits_of (n div 10) @ [''0123456789'' ! (n mod 10)])"

declare digits_of.simps [simp del]

definition str_int :: "int \<Rightarrow> string" where
  "str_int i = (if i < 0 then CHR ''-'' # digits_of (nat (- i)) else digits_of (nat i))"

text \<open>
  A string in JSON with \<^verbatim>\<open>ensure_ascii\<close>: the quote and the backslash are escaped, the
  printable ASCII characters stand for themselves, everything else is an escape sequence.
\<close>

definition escape_char :: "char \<Rightarrow> string" where
  "escape_char c =
     (if c = CHR 0x22 then [CHR 0x5C, CHR 0x22]
      else if c = CHR 0x5C then [CHR 0x5C, CHR 0x5C]
      else if c = CHR 0x0A then [CHR 0x5C, CHR ''n'']
      else if c = CHR 0x0D then [CHR 0x5C, CHR ''r'']
      else if c = CHR 0x09 then [CHR 0x5C, CHR ''t'']
      else if c = CHR 0x08 then [CHR 0x5C, CHR ''b'']
      else if c = CHR 0x0C then [CHR 0x5C, CHR ''f'']
      else if 32 \<le> (of_char c :: nat) \<and> (of_char c :: nat) \<le> 126 then [c]
      else [CHR 0x5C, CHR ''u'', CHR ''0'', CHR ''0''] @ hex_byte (int (of_char c)))"

definition quote :: "string \<Rightarrow> string" where
  "quote s = [CHR 0x22] @ concat (map escape_char s) @ [CHR 0x22]"

fun join :: "string \<Rightarrow> string list \<Rightarrow> string" where
  "join sep [] = []"
| "join sep [x] = x"
| "join sep (x # y # ys) = x @ sep @ join sep (y # ys)"

text \<open>\<^verbatim>\<open>json.dumps(params, sort_keys=True)\<close>: the items of every dictionary in the order of their keys.\<close>

fun dumps :: "json \<Rightarrow> string" where
  "dumps JNull = ''null''"
| "dumps (JBool b) = (if b then ''true'' else ''false'')"
| "dumps (JInt i) = str_int i"
| "dumps (JStr s) = quote s"
| "dumps (JList xs) = ''['' @ join '', '' (map dumps xs) @ '']''"
| "dumps (JDict kvs) =
     ''{'' @ join '', '' (map (\<lambda>(k, v). quote k @ '': '' @ dumps v) (sort_key fst kvs)) @ ''}''"

subsection \<open>Key derivation\<close>

text \<open>
  The parameters of \<^verbatim>\<open>_generate_cache_key\<close>: a dictionary, or any other value, of which only
  \<^verbatim>\<open>str(params)\<close> is used.
\<close>

datatype cache_params = DictParams "(string \<times> json) list" | OtherParams string

definition stable_str :: "cache_params \<Rightarrow> string" where
  "stable_str params =
     (case params of DictParams kvs \<Rightarrow> dumps (JDict kvs) | OtherParams s \<Rightarrow> s)"

text \<open>
  Two values that differ only in the order of the keys of their dictionaries, at any depth:
  equal values; lists of the same length whose elements differ only so; dictionaries with the
  same keys whose values under each key differ only so.
\<close>

inductive same_up_to_key_order :: "json \<Rightarrow> json \<Rightarrow> bool" where
  same_value: "same_up_to_key_order x x"
| same_list: "list_all2 same_up_to_key_order xs ys
     \<Longrightarrow> same_up_to_key_order (JList xs) (JList ys)"
| same_dict: "distinct (map fst xs) \<Longrightarrow> distinct (map fst ys) \<Longrightarrow> fst ` set xs = fst ` set ys
     \<Longrightarrow> (\<forall>k v v'. (k, v) \<in> set xs \<longrightarrow> (k, v') \<in> set ys \<longrightarrow> same_up_to_key_order v v')
     \<Longrightarrow> same_up_to_key_order (JDict xs) (JDict ys)"

text \<open>
  The parameters of a search with a nested dictionary of filters, written in two orders.
\<close>

definition search_params :: "(string \<times> json) list" where
  "search_params =
     [(''query'', JStr ''acme''), (''page'', JInt 1),
      (''filters'', JDict [(''naf_code'', JStr ''62.01Z''), (''postal_code'', JStr ''75001'')])]"

definition search_params_reordered :: "(string \<times> json) list" where
  "search_params_reordered =
     [(''filters'', JDict [(''postal_code'', JStr ''75001''), (''naf_code'', JStr ''62.01Z'')]),
      (''page'', JInt 1), (''query'', JStr ''acme'')]"

definition generate_cache_key :: "string \<Rightarrow> cache_params \<Rightarrow> string" where
  "generate_cache_key key_prefix params =
     key_prefix @ take 16 (md5_hexdigest (stable_str params))"


section \<open>Privacy redaction (src/privacy/filters.py)\<close>

text \<open>
  \<^verbatim>\<open>PrivacyRule\<close>. The data filtered are dictionaries, lists and scalars as \<^verbatim>\<open>json\<close> values
  (the tests and the tools pass dictionaries); the condition value of every built-in rule is a
  scalar.
\<close>

record PrivacyRule =
  rule_name :: string
  condition :: string
  condition_value :: json
  fields_to_remove :: "string list"
  fields_to_mask :: "(string \<times> string) list"
  applies_to :: "string list"

text \<open>Python's \<^verbatim>\<open>==\<close> on scalars (a boolean equals the integer 0 or 1) and its truth value.\<close>

fun py_eq :: "json \<Rightarrow> json \<Rightarrow> bool" where
  "py_eq (JBool a) (JInt i) = (i = (if a then 1 else 0))"
| "py_eq (JInt i) (JBool a) = (i = (if a then 1 else 0))"
| "py_eq x y = (x = y)"

fun truthy_json :: "json \<Rightarrow> bool" where
  "truthy_json JNull = False"
| "truthy_json (JBool b) = b"
| "truthy_json (JInt i) = (i \<noteq> 0)"
| "truthy_json (JStr s) = (s \<noteq> [])"
| "truthy_json (JList xs) = (xs \<noteq> [])"
| "truthy_json (JDict kvs) = (kvs \<noteq> [])"

text \<open>Lines 117 to 123 of \<^verbatim>\<open>_apply_rule_to_dict\<close>.\<close>

definition condition_met :: "PrivacyRule \<Rightarrow> (string \<times> json) list \<Rightarrow> bool" where
  "condition_met rule data =
     (case dict_get data (condition rule) of
        None \<Rightarrow> False
      | Some v \<Rightarrow> py_eq v (condition_value rule))"

text \<open>Lines 129 to 134: every field to remove is popped.\<close>

definition remove_fields :: "string list \<Rightarrow> (string \<times> json) list \<Rightarrow> (string \<times> json) list" where
  "remove_fields names data = fold (\<lambda>field d. filter (\<lambda>(k, v). k \<noteq> field) d) names data"

text \<open>
  Lines 137 to 148: a field to mask that is present and true is replaced: for the mask
  \<^verbatim>\<open>YYYY-MM\<close> a string of at least 7 characters by its first 7, anything else left as it is;
  for any other mask by the mask itself.
\<close>

definition mask_value :: "string \<Rightarrow> json \<Rightarrow> json" where
  "mask_value masked_value original_value =
     (if masked_value = ''YYYY-MM'' then
        (case original_value of
           JStr s \<Rightarrow> if length s \<ge> 7 then JStr (take 7 s) else original_value
         | _ \<Rightarrow> original_value)
      else JStr masked_value)"

definition mask_field :: "string \<times> string \<Rightarrow> (string \<times> json) list \<Rightarrow> (string \<times> json) list" where
  "mask_field fm data =
     (case fm of (field, masked_value) \<Rightarrow>
        (case dict_get data field of
           None \<Rightarrow> data
         | Some original_value \<Rightarrow>
             if truthy_json original_value
             then dict_set data field (mask_value masked_value original_value)
             else data))"

definition mask_fields :: "(string \<times> string) list \<Rightarrow> (string \<times> json) list \<Rightarrow> (string \<times> json) list" where
  "mask_fields masks data = fold mask_field masks data"

text \<open>Removing and masking never put a larger value into the dictionary, so the recursion ends.\<close>

lemma size_json_dict: "(k, v) \<in> set kvs \<Longrightarrow> size v < size (JDict kvs)"
  by (induction kvs) auto

lemma size_json_list: "x \<in> set xs \<Longrightarrow> size x < Suc (size_list size xs)"
  by (induction xs) auto

lemma size_mask_value: "size (mask_value m v) \<le> size v"
  by (auto simp: mask_value_def split: json.splits)

lemma dict_set_bound:
  assumes "\<forall>v \<in> snd ` set d. size v < n" "size x < n"
  shows "\<forall>v \<in> snd ` set (dict_set d f x). size v < n"
  using assms by (induction d) (force split: if_splits)+

lemma dict_get_mem: "dict_get d f = Some v \<Longrightarrow> (f, v) \<in> set d"
  by (induction d) (auto split: if_splits)

lemma mask_field_bound:
  assumes "\<forall>v \<in> snd ` set d. size v < n"
  shows "\<forall>v \<in> snd ` set (mask_field fm d). size v < n"
proof (cases fm)
  case (Pair f m)
  show ?thesis
  proof (cases "dict_get d f")
    case None
    with Pair assms show ?thesis by (simp add: mask_field_def)
  next
    case (Some ov)
    then have "(f, ov) \<in> set d" by (rule dict_get_mem)
    then have "ov \<in> snd ` set d" by force
    with assms have "size ov < n" by blast
    then have "size (mask_value m ov) < n" using size_mask_value [of m ov] by simp
    from dict_set_bound [OF assms this] Pair Some assms show ?thesis
      by (simp add: mask_field_def)
  qed
qed

lemma mask_fields_bound:
  "\<forall>v \<in> snd ` set d. size v < n \<Longrightarrow> \<forall>v \<in> snd ` set (mask_fields ms d). size v < n"
  unfolding mask_fields_def
proof (induction ms arbitrary: d)
  case Nil
  then show ?case by simp
next
  case (Cons m ms)
  from Cons.IH [OF mask_field_bound [OF Cons.prems]] show ?case by simp
qed

lemma remove_fields_bound:
  "\<forall>v \<in> snd ` set d. size v < n \<Longrightarrow> \<forall>v \<in> snd ` set (remove_fields fs d). size v < n"
  unfolding remove_fields_def
proof (induction fs arbitrary: d)
  case Nil
  then show ?case by simp
next
  case (Cons f fs)
  have "\<forall>v \<in> snd ` set (filter (\<lambda>(k, v). k \<noteq> f) d). size v < n"
    using Cons.prems by auto
  from Cons.IH [OF this] show ?case by simp
qed

lemma redacted_size:
  assumes "(k, v) \<in> set (mask_fields ms (remove_fields fs d))"
  shows "size v < size (JDict d)"
proof -
  have "\<forall>v \<in> snd ` set d. size v < size (JDict d)"
    using size_json_dict by fastforce
  from mask_fields_bound [OF remove_fields_bound [OF this]]
  have "\<forall>v \<in> snd ` set (mask_fields ms (remove_fields fs d)). size v < size (JDict d)" .
  moreover from assms have "v \<in> snd ` set (mask_fields ms (remove_fields fs d))" by force
  ultimately show ?thesis by blast
qed

lemma redacted_size_list:
  assumes "(k, JList xs) \<in> set (mask_fields ms (remove_fields fs d))" "x \<in> set xs"
  shows "size x < size (JDict d)"
  using redacted_size [OF assms(1)] size_json_list [OF assms(2)] by simp

text \<open>
  \<^verbatim>\<open>_apply_rule\<close> and \<^verbatim>\<open>_apply_rule_to_dict\<close>: when the condition is not met the dictionary is
  returned as it is, without descending; otherwise fields are removed, then masked, and the
  rule is applied to every value that is a dictionary or a list.
\<close>

function apply_rule :: "PrivacyRule \<Rightarrow> json \<Rightarrow> json"
  and apply_rule_to_dict :: "PrivacyRule \<Rightarrow> (string \<times> json) list \<Rightarrow> (string \<times> json) list" where
  "apply_rule rule data =
     (case data of
        JDict d \<Rightarrow> JDict (apply_rule_to_dict rule d)
      | JList xs \<Rightarrow> JList (map (apply_rule rule) xs)
      | _ \<Rightarrow> data)"
| "apply_rule_to_dict rule data =
     (if \<not> condition_met rule data then data
      else map (\<lambda>(key, v).
                  (key, case v of
                          JDict d \<Rightarrow> JDict (apply_rule_to_dict rule d)
                        | JList xs \<Rightarrow> JList (map (apply_rule rule) xs)
                        | _ \<Rightarrow> v))
             (mask_fields (fields_to_mask rule) (remove_fields (fields_to_remove rule) data)))"
  by pat_completeness auto
termination
proof (relation "measure (\<lambda>x. case x of Inl (r, v) \<Rightarrow> 2 * size v + 1
                                      | Inr (r, d) \<Rightarrow> 2 * size (JDict d))", goal_cases)
  case 1
  show ?case by simp
next
  case (2 rule data xs x)
  then show ?case using size_json_list [of x xs] by simp
next
  case 3
  then show ?case by simp
next
  case (4 rule data x xa y x5 xb)
  then have "(xa, JList x5) \<in> set (mask_fields (fields_to_mask rule)
                   (remove_fields (fields_to_remove rule) data))" by simp
  from redacted_size_list [OF this] 4 show ?case by fastforce
next
  case (5 rule data x xa y x6)
  then have "(xa, JDict x6) \<in> set (mask_fields (fields_to_mask rule)
                   (remove_fields (fields_to_remove rule) data))" by simp
  from redacted_size [OF this] show ?case by simp
qed



definition initialize_rules :: "PrivacyRule list" where
  "initialize_rules =
     [\<lparr>rule_name = ''mask_protected_addresses'', condition = ''privacy_status'',
       condition_value = JStr ''P'',
       fields_to_remove = [''street'', ''latitude'', ''longitude''], fields_to_mask = [],
       applies_to = [''Company'', ''CompanySearchResult'', ''Establishment'']\<rparr>,
      \<lparr>rule_name = ''remove_birth_details'', condition = ''is_individual'',
       condition_value = JBool True,
       fields_to_remove = [''birth_date'', ''birth_place''],
       fields_to_mask = [(''birth_date'', ''YYYY-MM'')],
       applies_to = [''Executive'', ''BeneficialOwner'']\<rparr>,
      \<lparr>rule_name = ''insee_diffusion_protected'', condition = ''statut_diffusion'',
       condition_value = JStr ''P'',
       fields_to_remove = [''voie'', ''numVoie'', ''latitude'', ''longitude''],
       fields_to_mask = [],
       applies_to = [''Company'', ''Establishment'']\<rparr>,
      \<lparr>rule_name = ''executive_privacy'', condition = ''person_type'',
       condition_value = JStr ''PHYSIQUE'',
       fields_to_remove = [''date_naissance_complete'', ''lieu_naissance''],
       fields_to_mask = [(''date_naissance'', ''YYYY-MM'')],
       applies_to = [''Executive'', ''Representative'']\<rparr>]"

definition apply_filters :: "json \<Rightarrow> string \<Rightarrow> json" where
  "apply_filters data model_type =
     (case data of
        JNull \<Rightarrow> JNull
      | _ \<Rightarrow> fold (\<lambda>rule filtered_data.
                   if model_type \<in> set (applies_to rule) then apply_rule rule filtered_data
                   else filtered_data)
                initialize_rules data)"

definition filter_address :: "json \<Rightarrow> json" where
  "filter_address addr =
     (case addr of
        JDict a \<Rightarrow>
          JDict [(''postal_code'', (case dict_get a ''postal_code'' of None \<Rightarrow> JNull | Some v \<Rightarrow> v)),
                 (''city'', (case dict_get a ''city'' of None \<Rightarrow> JNull | Some v \<Rightarrow> v))]
      | _ \<Rightarrow> addr)"

text \<open>The items a \<^verbatim>\<open>for\<close> loop sees; a scalar other than a string cannot be iterated.\<close>

definition py_iter :: "json \<Rightarrow> json list option" where
  "py_iter v =
     (case v of
        JList xs \<Rightarrow> Some xs
      | JStr s \<Rightarrow> Some (map (\<lambda>c. JStr [c]) s)
      | JDict kvs \<Rightarrow> Some (map (\<lambda>kv. JStr (fst kv)) kvs)
      | _ \<Rightarrow> None)"

definition filter_list_field :: "string \<Rightarrow> string \<Rightarrow> (string \<times> json) list \<Rightarrow> (string \<times> json) list option" where
  "filter_list_field field model_type filtered =
     (case dict_get filtered field of
        None \<Rightarrow> Some filtered
      | Some v \<Rightarrow>
          (case py_iter v of
             None \<Rightarrow> None
           | Some items \<Rightarrow>
               Some (dict_set filtered field
                       (JList (map (\<lambda>item. apply_filters item model_type) items)))))"

text \<open>\<^verbatim>\<open>filter_company\<close> on a dictionary; \<open>None\<close> is the \<^verbatim>\<open>TypeError\<close> of a loop over a scalar.\<close>

definition filter_company :: "json \<Rightarrow> json option" where
  "filter_company company =
     (case apply_filters company ''Company'' of
        JDict filtered \<Rightarrow>
          (case filter_list_field ''executives'' ''Executive'' filtered of
             None \<Rightarrow> None
           | Some f1 \<Rightarrow>
               (case filter_list_field ''establishments'' ''Establishment'' f1 of
                  None \<Rightarrow> None
                | Some f2 \<Rightarrow>
                    Some (JDict
                      (case dict_get f2 ''address'' of
                         Some addr \<Rightarrow>
                           if py_eq (case dict_get f2 ''privacy_status'' of
                                       None \<Rightarrow> JNull | Some v \<Rightarrow> v) (JStr ''P'')
                           then dict_set f2 ''address'' (filter_address addr)
                           else f2
                       | None \<Rightarrow> f2))))
      | other \<Rightarrow> Some other)"

text \<open>The protected entity of scenario B, in the field names of the code.\<close>

definition scenario_B :: json where
  "scenario_B =
     JDict [(''siren'', JStr ''987654321''), (''privacy_status'', JStr ''P''),
            (''address'', JDict [(''street'', JStr ''X''), (''postal_code'', JStr ''75001''),
                                 (''city'', JStr ''Paris''), (''latitude'', JInt 1),
                                 (''longitude'', JInt 2)]),
            (''executives'', JList [JDict [(''role'', JStr ''CEO''), (''name'', JStr ''D''),
                                           (''birth_date'', JStr ''1970-05-15'')]])]"


section \<open>Analytic store (src/cache/duckdb\_cache.py)\<close>

text \<open>
  The engine is an opaque executor; what the loader relies on is modelled: named tables of
  rows, the metadata table (without its timestamp), and transactions. \<open>snapshot\<close> is the
  state at \<^verbatim>\<open>BEGIN\<close> while a transaction is open. Outside a transaction every statement is
  committed at once.
\<close>

record 'r database =
  tables :: "string \<Rightarrow> 'r list option"
  cache_metadata :: "string \<Rightarrow> (nat \<times> string) option"
  snapshot :: "((string \<Rightarrow> 'r list option) \<times> (string \<Rightarrow> (nat \<times> string) option)) option"

text \<open>
  A statement either takes effect and yields a value, or fails and leaves the state as it
  was. \<open>Inl i\<close> says that statement number \<open>i\<close> of the load failed.
\<close>

type_synonym ('r, 'a) stmt = "'r database \<Rightarrow> ('a \<times> 'r database) option"

definition create_or_replace_table_as :: "string \<Rightarrow> 'r list option \<Rightarrow> ('r, unit) stmt" where
  "create_or_replace_table_as tbl scan db =
     (case scan of
        None \<Rightarrow> None
      | Some rows \<Rightarrow> Some ((), db\<lparr>tables := (tables db)(tbl \<mapsto> rows)\<rparr>))"

definition select_count :: "string \<Rightarrow> ('r, nat) stmt" where
  "select_count tbl db =
     (case tables db tbl of None \<Rightarrow> None | Some rows \<Rightarrow> Some (length rows, db))"

definition begin_transaction :: "('r, unit) stmt" where
  "begin_transaction db =
     (case snapshot db of
        Some s \<Rightarrow> None
      | None \<Rightarrow> Some ((), db\<lparr>snapshot := Some (tables db, cache_metadata db)\<rparr>))"

definition drop_table_if_exists :: "string \<Rightarrow> ('r, unit) stmt" where
  "drop_table_if_exists tbl db = Some ((), db\<lparr>tables := (tables db)(tbl := None)\<rparr>)"

definition alter_table_rename :: "string \<Rightarrow> string \<Rightarrow> ('r, unit) stmt" where
  "alter_table_rename old new db =
     (case tables db old of
        None \<Rightarrow> None
      | Some rows \<Rightarrow>
          (if tables db new \<noteq> None then None
           else Some ((), db\<lparr>tables := (tables db)(old := None, new \<mapsto> rows)\<rparr>)))"

definition commit_transaction :: "('r, unit) stmt" where
  "commit_transaction db =
     (case snapshot db of None \<Rightarrow> None | Some s \<Rightarrow> Some ((), db\<lparr>snapshot := None\<rparr>))"

definition insert_or_replace_metadata :: "string \<Rightarrow> nat \<Rightarrow> string \<Rightarrow> ('r, unit) stmt" where
  "insert_or_replace_metadata tbl n src db =
     Some ((), db\<lparr>cache_metadata := (cache_metadata db)(tbl \<mapsto> (n, src))\<rparr>)"

text \<open>\<^verbatim>\<open>connection.commit()\<close> does nothing when no transaction is open.\<close>

definition connection_commit :: "('r, unit) stmt" where
  "connection_commit db =
     (case snapshot db of None \<Rightarrow> Some ((), db) | Some s \<Rightarrow> Some ((), db\<lparr>snapshot := None\<rparr>))"

text \<open>
  \<^verbatim>\<open>connection.rollback()\<close>: an open transaction is undone; without one the call itself
  raises (the flag), and nothing changes.
\<close>

definition connection_rollback :: "'r database \<Rightarrow> bool \<times> 'r database" where
  "connection_rollback db =
     (case snapshot db of
        None \<Rightarrow> (True, db)
      | Some (t, m) \<Rightarrow> (False, db\<lparr>tables := t, cache_metadata := m, snapshot := None\<rparr>))"

text \<open>
  Running statement number \<open>i\<close>. Besides the failures the engine decides from its state, any
  statement can fail for a reason outside the model (the disk, the file, a dependency of the
  table); \<open>fault i\<close> says that statement \<open>i\<close> does.
\<close>

definition run_stmt ::
  "(nat \<Rightarrow> bool) \<Rightarrow> nat \<Rightarrow> ('r, 'a) stmt \<Rightarrow> 'r database \<Rightarrow> (nat + 'a) \<times> 'r database" where
  "run_stmt fault i stmt db =
     (if fault i then (Inl i, db)
      else (case stmt db of None \<Rightarrow> (Inl i, db) | Some (v, db') \<Rightarrow> (Inr v, db')))"

definition and_then ::
  "('r database \<Rightarrow> (nat + 'a) \<times> 'r database) \<Rightarrow> ('a \<Rightarrow> 'r database \<Rightarrow> (nat + 'b) \<times> 'r database)
     \<Rightarrow> 'r database \<Rightarrow> (nat + 'b) \<times> 'r database" where
  "and_then m f db =
     (case m db of (Inl i, db') \<Rightarrow> (Inl i, db') | (Inr v, db') \<Rightarrow> f v db')"

text \<open>The \<^verbatim>\<open>try\<close> block of \<^verbatim>\<open>_load_parquet_sync\<close>, lines 150 to 183.\<close>

definition load_statements ::
  "(nat \<Rightarrow> bool) \<Rightarrow> 'r list option \<Rightarrow> string \<Rightarrow> string \<Rightarrow> 'r database \<Rightarrow> (nat + nat) \<times> 'r database" where
  "load_statements fault scan file_path table_name =
     and_then (run_stmt fault 1 (create_or_replace_table_as (table_name @ ''_staging'') scan)) (\<lambda>_.
     and_then (run_stmt fault 2 (select_count (table_name @ ''_staging''))) (\<lambda>row_count.
     and_then (run_stmt fault 3 begin_transaction) (\<lambda>_.
     and_then (run_stmt fault 4 (drop_table_if_exists (table_name @ ''_old''))) (\<lambda>_.
     and_then (run_stmt fault 5 (alter_table_rename table_name (table_name @ ''_old''))) (\<lambda>_.
     and_then (run_stmt fault 6 (alter_table_rename (table_name @ ''_staging'') table_name)) (\<lambda>_.
     and_then (run_stmt fault 7 commit_transaction) (\<lambda>_.
     and_then (run_stmt fault 8 (insert_or_replace_metadata table_name row_count file_path)) (\<lambda>_.
     and_then (run_stmt fault 9 connection_commit) (\<lambda>_ db.
     (Inr row_count, db))))))))))"

text \<open>
  \<^verbatim>\<open>_load_parquet_sync\<close>: \<open>scan\<close> is what \<^verbatim>\<open>parquet_scan(file_path)\<close> yields, \<open>None\<close> when the
  file cannot be read to its end. On any failure the handler rolls back and raises: the
  error names the statement that failed and whether the rollback itself raised.
\<close>

datatype load_error = LoadError (failed_statement: nat) (rollback_raised: bool)

definition load_parquet_sync ::
  "(nat \<Rightarrow> bool) \<Rightarrow> 'r list option \<Rightarrow> string \<Rightarrow> string \<Rightarrow> 'r database
     \<Rightarrow> (load_error + nat) \<times> 'r database" where
  "load_parquet_sync fault scan file_path table_name db =
     (case load_statements fault scan file_path table_name db of
        (Inr row_count, db') \<Rightarrow> (Inr row_count, db')
      | (Inl i, db') \<Rightarrow>
          (case connection_rollback db' of (raised, db'') \<Rightarrow> (Inl (LoadError i raised), db'')))"

text \<open>A store whose table \<^verbatim>\<open>entities\<close> holds the given rows, and nothing else.\<close>

definition store_with_entities :: "nat list \<Rightarrow> nat database" where
  "store_with_entities rows =
     \<lparr>tables = Map.empty(''entities'' \<mapsto> rows), cache_metadata = Map.empty, snapshot = None\<rparr>"


section \<open>Circuit breaker: properties\<close>

lemma release_acquired: "\<not> lock_held b \<Longrightarrow> release (b\<lparr>lock_held := True\<rparr>) = b"
  by (cases b) (simp add: release_def)

lemma should_attempt_recovery_lock [simp]:
  "should_attempt_recovery now (b\<lparr>lock_held := l\<rparr>) = should_attempt_recovery now b"
  by (simp add: should_attempt_recovery_def split: option.splits)

lemma call_open_rejects:
  assumes "\<not> lock_held b" "state b = OPEN" "last_failure_time b = Some t"
    "clock w - t < recovery_timeout b * 1000000"
  shows "call clock func b w = Some (Raised (circuit_open_error b), b, w)"
proof -
  have a: "acquire b = Some (b\<lparr>lock_held := True\<rparr>)"
    using assms by (simp add: acquire_def)
  have c: "check_recovery (clock w) (b\<lparr>lock_held := True\<rparr>) = Inl (circuit_open_error b)"
    using assms
    by (simp add: check_recovery_def should_attempt_recovery_def circuit_open_error_def)
  show ?thesis
    by (subst call.simps) (simp add: a c release_acquired assms)
qed

lemma check_recovery_after_timeout:
  assumes "state b = OPEN" "last_failure_time b = Some t"
    "recovery_timeout b * 1000000 \<le> now - t"
  shows "check_recovery now b = Inr (b\<lparr>state := HALF_OPEN, half_open_calls := 0\<rparr>)"
  using assms by (simp add: check_recovery_def should_attempt_recovery_def)

lemma call_open_recovers:
  assumes "\<not> lock_held b" "state b = OPEN" "last_failure_time b = Some t"
    "recovery_timeout b * 1000000 \<le> clock w - t" "0 < half_open_max_calls b"
  shows "call clock func b w =
         execute clock func (b\<lparr>state := HALF_OPEN, half_open_calls := 1\<rparr>) w"
proof -
  have a: "acquire b = Some (b\<lparr>lock_held := True\<rparr>)"
    using assms by (simp add: acquire_def)
  have c: "check_recovery (clock w) (b\<lparr>lock_held := True\<rparr>) =
           Inr (b\<lparr>lock_held := True, state := HALF_OPEN, half_open_calls := 0\<rparr>)"
    using assms by (simp add: check_recovery_def should_attempt_recovery_def)
  have r: "release (b\<lparr>lock_held := True, state := HALF_OPEN, half_open_calls := 1\<rparr>)
           = b\<lparr>state := HALF_OPEN, half_open_calls := 1\<rparr>"
    using assms(1) by (cases b) (simp add: release_def)
  show ?thesis
    using assms(5) by (subst call.simps) (simp add: a c r)
qed


lemma open_breaker_admits_no_calls:
  assumes "\<not> lock_held b" "state b = OPEN" "last_failure_time b = Some t"
    and "\<forall>t' \<in> set ts. t' - t < recovery_timeout b * 1000000"
  shows "calls_at func b h ts =
         Some (replicate (length ts) (Raised (circuit_open_error b)), b, h)"
  using assms(4)
proof (induction ts)
  case Nil
  show ?case by simp
next
  case (Cons t' ts)
  then have "fst (t', h) - t < recovery_timeout b * 1000000" by simp
  with assms(1-3) have "call fst func b (t', h) = Some (Raised (circuit_open_error b), b, (t', h))"
    by (rule call_open_rejects [where clock = fst and w = "(t', h)"])
  with Cons show ?case by simp
qed

lemma execute_half_open_probe:
  assumes "\<not> lock_held b"
  shows "execute clock func (b\<lparr>state := HALF_OPEN, half_open_calls := 1\<rparr>) w =
     (case func w of
        (Returned v, w') \<Rightarrow>
          Some (Returned v,
                b\<lparr>state := HALF_OPEN, half_open_calls := 1,
                  success_count := success_count b + 1\<rparr>, w')
      | (Raised e, w') \<Rightarrow>
          (if expected_exception b e
           then Some (Raised e,
                      b\<lparr>state := OPEN, half_open_calls := 1,
                        last_failure_time := Some (clock w')\<rparr>, w')
           else Some (Raised e, b\<lparr>state := HALF_OPEN, half_open_calls := 1\<rparr>, w')))"
  using assms
  by (cases b)
    (auto simp: execute_def on_success_def on_failure_def acquire_def release_def
      open_circuit_def Let_def split: prod.splits outcome.splits)

text \<open>
  With a positive probe budget, the first call after the timeout runs the protected function
  and hands back its outcome: the breaker is left half open after a success or an unexpected
  exception, and open again, with the time of this failure, after an expected one.
\<close>

lemma call_after_timeout_runs_function:
  assumes "\<not> lock_held b" "state b = OPEN" "last_failure_time b = Some t"
    "recovery_timeout b * 1000000 \<le> clock w - t" "0 < half_open_max_calls b"
  shows "call clock func b w =
     (case func w of
        (Returned v, w') \<Rightarrow>
          Some (Returned v,
                b\<lparr>state := HALF_OPEN, half_open_calls := 1,
                  success_count := success_count b + 1\<rparr>, w')
      | (Raised e, w') \<Rightarrow>
          (if expected_exception b e
           then Some (Raised e,
                      b\<lparr>state := OPEN, half_open_calls := 1,
                        last_failure_time := Some (clock w')\<rparr>, w')
           else Some (Raised e, b\<lparr>state := HALF_OPEN, half_open_calls := 1\<rparr>, w')))"
proof -
  have "call clock func b w =
        execute clock func (b\<lparr>state := HALF_OPEN, half_open_calls := 1\<rparr>) w"
    using assms by (rule call_open_recovers [where t = t])
  with execute_half_open_probe [OF assms(1)] show ?thesis by simp
qed



lemma call_blocks_at_half_open_limit:
  assumes "\<not> lock_held b" "state b = HALF_OPEN" "half_open_max_calls b \<le> half_open_calls b"
  shows "call clock func b w = None"
proof -
  have a: "acquire b = Some (b\<lparr>lock_held := True\<rparr>)"
    using assms by (simp add: acquire_def)
  have c: "check_recovery (clock w) (b\<lparr>lock_held := True\<rparr>) = Inr (b\<lparr>lock_held := True\<rparr>)"
    using assms by (simp add: check_recovery_def)
  have inner: "call clock func b' w = None" if "lock_held b'" for b'
    using that by (subst call.simps) (simp add: acquire_def)
  show ?thesis
    using assms
    by (subst call.simps) (simp add: a c inner close_circuit_def open_circuit_def)
qed

lemma call_returns_otherwise:
  assumes "\<not> lock_held b"
    and "\<not> (state b = HALF_OPEN \<and> half_open_max_calls b \<le> half_open_calls b)"
    and "state b = OPEN \<Longrightarrow> should_attempt_recovery (clock w) b \<Longrightarrow> 0 < half_open_max_calls b"
  shows "\<exists>r. call clock func b w = Some r"
proof -
  have ex: "\<exists>r bb ww. execute clock func b' w = Some (r, bb, ww)" if "\<not> lock_held b'" for b'
    using that
    by (auto simp: execute_def on_success_def on_failure_def acquire_def Let_def
        split: prod.splits outcome.splits)
  show ?thesis
  proof (cases "state b = OPEN")
    case True
    show ?thesis
    proof (cases "should_attempt_recovery (clock w) b")
      case False
      with True assms(1) show ?thesis
        by (subst call.simps) (simp add: acquire_def check_recovery_def)
    next
      case sr: True
      with True assms have "0 < half_open_max_calls b" by simp
      with True sr assms(1) show ?thesis
        by (subst call.simps) (simp add: acquire_def check_recovery_def release_def ex)
    qed
  next
    case False
    with assms show ?thesis
      by (subst call.simps) (auto simp: acquire_def check_recovery_def release_def ex)
  qed
qed

text \<open>
  Claim C10. The claim asks that every call returns or raises, also in \<open>HALF_OPEN\<close> once
  \<open>half_open_calls\<close> has reached \<open>half_open_max_calls\<close>. The code does not: a breaker
  that opened on one failure and then served three successful probes is in exactly that state,
  and the next call takes the lock, closes the circuit and calls itself with the lock still
  held, so it waits for itself and never returns. (In every other state with the lock free
  the call does return, \<open>call_returns_otherwise\<close>.)
\<close>

theorem call_at_half_open_limit_never_returns:
  "calls_at transport_recovering (new_breaker ''api'' 1 60 (\<lambda>e. True) 3) 0
     [0, 60000000, 60000001, 60000002] =
   Some ([Raised (http_error 503), Returned (), Returned (), Returned ()],
         (new_breaker ''api'' 1 60 (\<lambda>e. True) 3)
            \<lparr>state := HALF_OPEN, failure_count := 1, last_failure_time := Some 0,
             success_count := 3, half_open_calls := 3\<rparr>, 4)
   \<and> call fst transport_recovering
         ((new_breaker ''api'' 1 60 (\<lambda>e. True) 3)
            \<lparr>state := HALF_OPEN, failure_count := 1, last_failure_time := Some 0,
             success_count := 3, half_open_calls := 3\<rparr>) (60000003, 4) = None"
proof
  show "calls_at transport_recovering (new_breaker ''api'' 1 60 (\<lambda>e. True) 3) 0
     [0, 60000000, 60000001, 60000002] =
   Some ([Raised (http_error 503), Returned (), Returned (), Returned ()],
         (new_breaker ''api'' 1 60 (\<lambda>e. True) 3)
            \<lparr>state := HALF_OPEN, failure_count := 1, last_failure_time := Some 0,
             success_count := 3, half_open_calls := 3\<rparr>, 4)"
    by (simp add: call.simps new_breaker_def acquire_def release_def check_recovery_def
        should_attempt_recovery_def execute_def transport_recovering_def on_failure_def
        on_success_def open_circuit_def Let_def)
  show "call fst transport_recovering
         ((new_breaker ''api'' 1 60 (\<lambda>e. True) 3)
            \<lparr>state := HALF_OPEN, failure_count := 1, last_failure_time := Some 0,
             success_count := 3, half_open_calls := 3\<rparr>) (60000003, 4) = None"
    by (rule call_blocks_at_half_open_limit) (simp_all add: new_breaker_def)
qed

section \<open>Retry executor: properties\<close>














section \<open>Credentials: properties\<close>

lemma get_token_fresh_or_attempted:
  assumes "get_token clock authenticate refresh tok w = (Returned v, Some t', w', events)"
  shows "events \<noteq> [] \<or> (fresh (clock w) t' \<and> tok = Some t' \<and> w' = w)"
  using assms
  by (auto simp: get_token_def is_expired_def fresh_def
      split: option.splits prod.splits outcome.splits if_splits)

lemma get_token_expired_refreshes:
  assumes "expires_at t = Some e" "e \<le> clock w"
  shows "snd (snd (snd (get_token clock authenticate refresh (Some t) w))) \<noteq> []"
  using assms
  by (auto simp: get_token_def is_expired_def split: prod.splits outcome.splits)

lemma get_token_expiring_soon_refreshes:
  assumes "expires_at t = Some e" "1000000 \<le> e - clock w" "e - clock w < 300000000"
  shows "snd (snd (snd (get_token clock authenticate refresh (Some t) w))) \<noteq> []"
proof -
  have "(e - clock w) div 1000000 < 300" "(e - clock w) div 1000000 \<noteq> 0"
    using assms by (simp_all add: zdiv_eq_0_iff div_less_iff_less_mult)
  then show ?thesis
    using assms
    by (auto simp: get_token_def is_expired_def expires_in_seconds_def truthy_def
        split: prod.splits outcome.splits)
qed

text \<open>
  Claim C9. A cached token within the 300-second window of its expiry must trigger a refresh
  before its value is returned. The code misses the last second: with half a second left the
  token is not expired, \<^verbatim>\<open>expires_in_seconds\<close> is \<open>0\<close>, which the condition of line 70 reads
  as false, and the cached value is returned with no refresh: no event is logged and the
  token endpoint receives no request. (An expired token, and one with between one second and
  five minutes left, do trigger the refresh; and a token returned without any attempt is
  fresh: \<open>get_token_expired_refreshes\<close>, \<open>get_token_expiring_soon_refreshes\<close>,
  \<open>get_token_fresh_or_attempted\<close>.)
\<close>

theorem get_token_last_second_no_refresh:
  "get_token fst issue_token issue_token
     (Some \<lparr>token_value = ''old'', expires_at = Some 1000500000, token_type = ''Bearer'',
            refresh_token = None\<rparr>) (1000000000, 0)
   = (Returned ''old'',
      Some \<lparr>token_value = ''old'', expires_at = Some 1000500000, token_type = ''Bearer'',
            refresh_token = None\<rparr>, (1000000000, 0), [])
   \<and> (1000500000 - 1000000000 :: int) < 300 * 1000000"
  by (simp add: get_token_def is_expired_def expires_in_seconds_def truthy_def)


section \<open>Rate limiter: properties\<close>

lemma admit_all_Cons:
  "admit_all limit window st (rt # rts) =
     (admitted (fst (check_rate_limit limit window rt st))
        # fst (admit_all limit window (snd (check_rate_limit limit window rt st)) rts),
      snd (admit_all limit window (snd (check_rate_limit limit window rt st)) rts))"
  by (simp split: prod.splits)

lemma check_live_counter:
  assumes "read_up rt" "write_up rt" "read_time rt \<le> e" "write_time rt \<le> e"
  shows "check_rate_limit limit window rt (Some (v, Some e)) =
           (if v \<ge> limit
            then (Inr (False, (if (e - write_time rt + 500) div 1000 = 0 then window
                               else (e - write_time rt + 500) div 1000)), Some (v, Some e))
            else (Inr (True, limit - (v + 1)), Some (v + 1, Some e)))"
  using assms
  by (simp add: check_rate_limit_def rate_limit_decide_def rate_limit_read_def redis_get_def
      redis_get_ttl_def redis_incr_def)

lemma admit_all_live_counter:
  assumes "\<forall>rt \<in> set rts. read_up rt \<and> write_up rt \<and> read_time rt \<le> e \<and> write_time rt \<le> e"
  shows "admit_all limit window (Some (v, Some e)) rts =
           (replicate (min (length rts) (nat (limit - v))) True
              @ replicate (length rts - nat (limit - v)) False,
            Some (v + int (min (length rts) (nat (limit - v))), Some e))"
  using assms
proof (induction rts arbitrary: v)
  case Nil
  show ?case by simp
next
  case (Cons rt rts)
  then have rt: "read_up rt" "write_up rt" "read_time rt \<le> e" "write_time rt \<le> e"
    and rest: "\<forall>rt \<in> set rts. read_up rt \<and> write_up rt \<and> read_time rt \<le> e \<and> write_time rt \<le> e"
    by simp_all
  show ?case
  proof (cases "v \<ge> limit")
    case True
    then have z: "nat (limit - v) = 0" by simp
    from True Cons.IH [OF rest, of v] check_live_counter [OF rt, of limit window v]
    show ?thesis
      by (simp only: admit_all_Cons) (simp add: admitted_def z)
  next
    case False
    then have s: "nat (limit - v) = Suc (nat (limit - (v + 1)))" by simp
    from False Cons.IH [OF rest, of "v + 1"] check_live_counter [OF rt, of limit window v]
    show ?thesis
      by (simp only: admit_all_Cons) (simp add: admitted_def s)
  qed
qed

lemma first_call_creates_counter:
  assumes "0 < window" "read_up rt" "write_up rt" "redis_get True (read_time rt) st = None"
  shows "check_rate_limit limit window rt st =
           (Inr (True, 1), Some (1, Some (write_time rt + window * 1000)))"
  using assms
  by (simp add: check_rate_limit_def rate_limit_decide_def rate_limit_read_def redis_set_def)

text \<open>
  Claim C4, as the code has it. Let the window setting be positive, let the store answer, and
  let the calls for the key not overlap. Then the limiter is a fixed-window counter. A call
  that finds no live counter is admitted and creates the counter with count 1 and a lifetime
  of \<open>window\<close> seconds; of the calls made during that lifetime exactly the first
  \<open>limit - 1\<close> are admitted and the others are refused. So among the creating call and the
  calls during the counter's lifetime exactly \<open>min (number of calls) (max 1 limit)\<close> are
  admitted, which is at most \<open>max 1 limit\<close>.
\<close>

theorem admits_bounded_in_fixed_window:
  assumes "0 < window" and "read_up rt" and "write_up rt"
    and "redis_get True (read_time rt) st = None"
    and "\<forall>r \<in> set rts. read_up r \<and> write_up r
            \<and> read_time r \<le> write_time rt + window * 1000
            \<and> write_time r \<le> write_time rt + window * 1000"
  shows "check_rate_limit limit window rt st =
           (Inr (True, 1), Some (1, Some (write_time rt + window * 1000)))
       \<and> fst (admit_all limit window st (rt # rts)) =
           True # replicate (min (length rts) (nat (limit - 1))) True
                @ replicate (length rts - nat (limit - 1)) False
       \<and> int (length (filter id (fst (admit_all limit window st (rt # rts)))))
           = min (1 + int (length rts)) (max 1 limit)
       \<and> int (length (filter id (fst (admit_all limit window st (rt # rts))))) \<le> max 1 limit"
proof -
  have first: "check_rate_limit limit window rt st =
           (Inr (True, 1), Some (1, Some (write_time rt + window * 1000)))"
    using assms(1-4) by (rule first_call_creates_counter)
  have rest: "admit_all limit window (Some (1, Some (write_time rt + window * 1000))) rts =
           (replicate (min (length rts) (nat (limit - 1))) True
              @ replicate (length rts - nat (limit - 1)) False,
            Some (1 + int (min (length rts) (nat (limit - 1))),
                  Some (write_time rt + window * 1000)))"
    using assms(5) by (rule admit_all_live_counter)
  have dec: "fst (admit_all limit window st (rt # rts)) =
           True # replicate (min (length rts) (nat (limit - 1))) True
                @ replicate (length rts - nat (limit - 1)) False"
    by (simp add: admit_all_Cons first rest admitted_def del: admit_all.simps)
  have cnt: "int (length (filter id (fst (admit_all limit window st (rt # rts)))))
           = min (1 + int (length rts)) (max 1 limit)"
  proof -
    have "int (length (filter id (fst (admit_all limit window st (rt # rts)))))
            = 1 + int (min (length rts) (nat (limit - 1)))"
      unfolding dec by simp
    also have "\<dots> = min (1 + int (length rts)) (max 1 limit)"
      by (cases "1 \<le> limit") (simp_all add: min_def max_def, linarith+)
    finally show ?thesis .
  qed
  from first dec cnt show ?thesis by simp
qed

theorem admits_bounded_in_fixed_window_witness:
  "(0::int) < 60 \<and> redis_get True (read_time (at_instant True 0)) None = None
   \<and> check_rate_limit 2 60 (at_instant True 0) None = (Inr (True, 1), Some (1, Some 60000))
   \<and> fst (admit_all 2 60 None
             [at_instant True 0, at_instant True 10, at_instant True 20, at_instant True 59000])
       = [True, True, False, False]
   \<and> int (length (filter id (fst (admit_all 2 60 None
             [at_instant True 0, at_instant True 10, at_instant True 20, at_instant True 59000]))))
       \<le> max 1 2"
  using admits_bounded_in_fixed_window
    [where window = 60 and rt = "at_instant True 0" and st = None and limit = 2
       and rts = "[at_instant True 10, at_instant True 20, at_instant True 59000]"]
  by (simp add: check_rate_limit_def rate_limit_decide_def rate_limit_read_def redis_get_def
      redis_set_def redis_incr_def redis_get_ttl_def admitted_def at_instant_def)

text \<open>
  The claim as it is written fails, for ceiling 2 and a window of 60 seconds, in each of these
  runs. Across the expiry of the counter: calls at 0 s, 59 s, 60.001 s and 60.002 s are all
  admitted, and the last three lie within the 60 seconds that start at 59 s. With overlapping
  calls: after one admitted call, two calls both read the count 1 before either increments
  it, and both are admitted, three admissions within one lifetime of the counter. With the
  store not answering: every call is admitted. With a negative window setting: the counter is
  never created and every call is admitted.
\<close>

theorem rolling_window_counterexample:
  "fst (admit_all 2 60 None
          [at_instant True 0, at_instant True 59000, at_instant True 60001, at_instant True 60002])
     = [True, True, True, True]
   \<and> admitted_within 59000 (60 * 1000) [0, 59000, 60001, 60002] [True, True, True, True] = 3
   \<and> check_rate_limit 2 60 (at_instant True 0) None = (Inr (True, 1), Some (1, Some 60000))
   \<and> rate_limit_read True 10 (Some (1, Some 60000)) = Some 1
   \<and> rate_limit_decide 2 60 True 11 (Some 1) (Some (1, Some 60000))
       = (Inr (True, 0), Some (2, Some 60000))
   \<and> rate_limit_decide 2 60 True 12 (Some 1) (Some (2, Some 60000))
       = (Inr (True, - 1), Some (3, Some 60000))
   \<and> fst (admit_all 2 60 None [at_instant False 0, at_instant False 1, at_instant False 2])
       = [True, True, True]
   \<and> fst (admit_all 2 (- 1) None [at_instant True 0, at_instant True 1, at_instant True 2])
       = [True, True, True]"
  by (simp add: check_rate_limit_def rate_limit_decide_def rate_limit_read_def redis_get_def
      redis_set_def redis_incr_def redis_get_ttl_def admitted_within_def admitted_def
      at_instant_def)

section \<open>Search fusion: properties\<close>








lemma score_all_raises:
  "merged_list \<noteq> [] \<Longrightarrow>
   score_all to_lower query merged_list =
     Inl (no_field_error ''CompanySearchResult'' ''relevance_score'')"
  by (cases merged_list) (simp_all add: set_relevance_score_def)

lemma merge_search_results_raises:
  "merge_sources results \<noteq> [] \<Longrightarrow>
   merge_search_results to_lower results query page per_page =
     Inl (no_field_error ''CompanySearchResult'' ''relevance_score'')"
  by (simp add: merge_search_results_def score_all_raises)

lemma merge_search_results_empty:
  "merge_sources results = [] \<Longrightarrow>
   merge_search_results to_lower results query page per_page = Inr []"
  by (simp add: merge_search_results_def py_slice_def Let_def)

lemma relevance_of_single_match:
  "(key_starts_with query a \<and> \<not> name_contains to_lower query a
      \<longrightarrow> relevance to_lower query a = 5)
   \<and> (name_contains to_lower query b \<and> \<not> key_starts_with query b
      \<longrightarrow> relevance to_lower query b = 10)"
  by (simp add: relevance_def)

text \<open>
  Claim C8. The merged results must come back sorted by relevance and paginated, with a
  record that matches the query by key prefix before a record that matches by name only. The
  code returns no list at all: for the two records \<open>key_match_only\<close> and \<open>name_match_only\<close>
  and the query \<open>123\<close>, as for every non-empty merged list
  (\<open>merge_search_results_raises\<close>), the assignment of the score in line 256 raises
  \<^verbatim>\<open>ValueError\<close> before anything is sorted. (The scores computed before the assignment are 5
  for the key match and 10 for the name match, \<open>relevance_of_single_match\<close>.)
\<close>

theorem merge_search_results_raises_before_sorting:
  "key_starts_with ''123'' key_match_only \<and> key_starts_with ''123'' name_match_only = False
   \<and> merge_sources [Some [key_match_only, name_match_only]]
       = [(''123456789'', key_match_only), (''987654321'', name_match_only)]
   \<and> merge_search_results to_lower [Some [key_match_only, name_match_only]] ''123'' 1 20
       = Inl (no_field_error ''CompanySearchResult'' ''relevance_score'')"
proof -
  have m: "merge_sources [Some [key_match_only, name_match_only]]
       = [(''123456789'', key_match_only), (''987654321'', name_match_only)]"
    by code_simp
  have k: "key_starts_with ''123'' key_match_only \<and> key_starts_with ''123'' name_match_only = False"
    by code_simp
  from m have "merge_search_results to_lower [Some [key_match_only, name_match_only]] ''123'' 1 20
       = Inl (no_field_error ''CompanySearchResult'' ''relevance_score'')"
    by (intro merge_search_results_raises) simp
  with m k show ?thesis by simp
qed

section \<open>Cache keys: properties\<close>

text \<open>The digest function agrees with the test suite of RFC 1321.\<close>

lemma md5_test_suite:
  "md5_hexdigest [] = ''d41d8cd98f00b204e9800998ecf8427e''"
  "md5_hexdigest ''abc'' = ''900150983cd24fb0d6963f7d28e17f72''"
  "md5_hexdigest ''message digest'' = ''f96b697d7cb7938d525a2f31aaf161d0''"
  by code_simp+

lemma sorted_items_same_keys:
  assumes "distinct (map fst xs)" "distinct (map fst ys)" "fst ` set xs = fst ` set ys"
  shows "map fst (sort_key fst xs) = map fst (sort_key fst ys)"
proof (rule sorted_distinct_set_unique)
  show "sorted (map fst (sort_key fst xs))" "sorted (map fst (sort_key fst ys))" by simp_all
  have "mset (map fst (sort_key fst xs)) = mset (map fst xs)" by simp
  with assms(1) show "distinct (map fst (sort_key fst xs))"
    by (metis distinct_count_atmost_1 set_mset_mset)
  have "mset (map fst (sort_key fst ys)) = mset (map fst ys)" by simp
  with assms(2) show "distinct (map fst (sort_key fst ys))"
    by (metis distinct_count_atmost_1 set_mset_mset)
  show "set (map fst (sort_key fst xs)) = set (map fst (sort_key fst ys))"
    using assms(3) by simp
qed

lemma dumps_same:
  "same_up_to_key_order x y \<Longrightarrow> dumps x = dumps y"
proof (induction rule: same_up_to_key_order.induct)
  case (same_value x)
  show ?case by simp
next
  case (same_list xs ys)
  then have "map dumps xs = map dumps ys"
    by (induction rule: list_all2_induct) simp_all
  then show ?case by simp
next
  case (same_dict xs ys)
  let ?A = "sort_key fst xs" and ?B = "sort_key fst ys"
  let ?item = "\<lambda>(k, v). quote k @ '': '' @ dumps v"
  have keys: "map fst ?A = map fst ?B"
    using same_dict(1-3) by (rule sorted_items_same_keys)
  then have len: "length ?A = length ?B" by (metis length_map)
  have "map ?item ?A = map ?item ?B"
  proof (rule nth_equalityI)
    show "length (map ?item ?A) = length (map ?item ?B)" using len by simp
    fix i assume "i < length (map ?item ?A)"
    then have i: "i < length ?A" "i < length ?B" using len by simp_all
    obtain k v where a: "?A ! i = (k, v)" by (cases "?A ! i")
    obtain k' v' where b: "?B ! i = (k', v')" by (cases "?B ! i")
    from keys i a b have "k' = k" by (metis fst_conv nth_map)
    from i a have "(k, v) \<in> set xs" by (metis nth_mem set_sort)
    moreover from i b \<open>k' = k\<close> have "(k, v') \<in> set ys" by (metis nth_mem set_sort)
    ultimately have "dumps v = dumps v'" using same_dict(4) by blast
    with i a b \<open>k' = k\<close> show "map ?item ?A ! i = map ?item ?B ! i" by simp
  qed
  then show ?case by simp
qed

lemma length_le_bytes: "length (le_bytes n x) = n"
  by (simp add: le_bytes_def)

lemma length_md5_digest: "length (md5_digest msg) = 16"
  by (simp add: md5_digest_def length_le_bytes split: prod.splits)

lemma length_concat_hex: "length (concat (map hex_byte bs)) = 2 * length bs"
  by (induction bs) (simp_all add: hex_byte_def)

lemma length_md5_hexdigest: "length (md5_hexdigest s) = 32"
  by (simp add: md5_hexdigest_def length_concat_hex length_md5_digest)

lemma length_generate_cache_key: "length (generate_cache_key p x) = length p + 16"
  by (simp add: generate_cache_key_def length_md5_hexdigest)


lemma key_is_prefix_of_digest:
  "prefix (generate_cache_key p x) (p @ md5_hexdigest (stable_str x))"
  unfolding generate_cache_key_def
  by (simp add: take_is_prefix)

lemma search_params_same:
  "same_up_to_key_order (JDict search_params) (JDict search_params_reordered)"
proof (rule same_dict)
  show "distinct (map fst search_params)" "distinct (map fst search_params_reordered)"
    by (simp_all add: search_params_def search_params_reordered_def)
  show "fst ` set search_params = fst ` set search_params_reordered"
    by (auto simp: search_params_def search_params_reordered_def)
  have f: "same_up_to_key_order
             (JDict [(''naf_code'', JStr ''62.01Z''), (''postal_code'', JStr ''75001'')])
             (JDict [(''postal_code'', JStr ''75001''), (''naf_code'', JStr ''62.01Z'')])"
    by (rule same_dict) (auto intro: same_value)
  show "\<forall>k v v'. (k, v) \<in> set search_params \<longrightarrow> (k, v') \<in> set search_params_reordered
          \<longrightarrow> same_up_to_key_order v v'"
    using f by (auto simp: search_params_def search_params_reordered_def intro: same_value)
qed

text \<open>
  Claim C5, as the code has it. The key is the prefix followed by the first 16 of the 32
  hexadecimal digits of the MD5 digest of the canonical text, which for a dictionary is its
  JSON with the keys of every dictionary sorted. Inputs with the same canonical text have
  the same key, and two dictionaries that differ only in the order of their keys, at any
  depth, have the same canonical text and so the same key. The converse is not promised:
  different canonical texts may share a key.
\<close>

theorem cache_key_is_truncated_digest_of_canonical_json:
  "(same_up_to_key_order (JDict kvs1) (JDict kvs2)
      \<longrightarrow> dumps (JDict kvs1) = dumps (JDict kvs2)
        \<and> generate_cache_key p (DictParams kvs1) = generate_cache_key p (DictParams kvs2))
   \<and> (stable_str x = stable_str x' \<longrightarrow> generate_cache_key p x = generate_cache_key p x')
   \<and> prefix (generate_cache_key p x) (p @ md5_hexdigest (stable_str x))
   \<and> length (generate_cache_key p x) = length p + 16
   \<and> length (p @ md5_hexdigest (stable_str x)) = length p + 32"
  using dumps_same [of "JDict kvs1" "JDict kvs2"] length_generate_cache_key [of p x]
    key_is_prefix_of_digest [of p x] length_md5_hexdigest [of "stable_str x"]
  by (simp add: generate_cache_key_def stable_str_def)

theorem cache_key_is_truncated_digest_of_canonical_json_witness:
  "same_up_to_key_order (JDict search_params) (JDict search_params_reordered)
   \<and> search_params \<noteq> search_params_reordered
   \<and> dumps (JDict search_params) = dumps (JDict search_params_reordered)
   \<and> stable_str (DictParams search_params) = stable_str (DictParams search_params_reordered)
   \<and> generate_cache_key ''search:'' (DictParams search_params)
       = generate_cache_key ''search:'' (DictParams search_params_reordered)"
proof -
  have ne: "search_params \<noteq> search_params_reordered"
    by (simp add: search_params_def search_params_reordered_def)
  have st: "stable_str (DictParams search_params) = stable_str (DictParams search_params_reordered)"
    using dumps_same [OF search_params_same] by (simp add: stable_str_def)
  show ?thesis
    using search_params_same ne st
      cache_key_is_truncated_digest_of_canonical_json
        [where ?kvs1.0 = search_params and ?kvs2.0 = search_params_reordered
           and p = "''search:''" and x = "DictParams search_params"
           and x' = "DictParams search_params_reordered"]
    by simp
qed

lemma search_params_canonical_text:
  "dumps (JDict search_params)
     = [CHR ''{'', CHR 0x22] @ ''filters'' @ [CHR 0x22] @ '': {''
       @ [CHR 0x22] @ ''naf_code'' @ [CHR 0x22] @ '': '' @ [CHR 0x22] @ ''62.01Z'' @ [CHR 0x22]
       @ '', '' @ [CHR 0x22] @ ''postal_code'' @ [CHR 0x22] @ '': '' @ [CHR 0x22] @ ''75001''
       @ [CHR 0x22] @ ''}, '' @ [CHR 0x22] @ ''page'' @ [CHR 0x22] @ '': 1, ''
       @ [CHR 0x22] @ ''query'' @ [CHR 0x22] @ '': '' @ [CHR 0x22] @ ''acme'' @ [CHR 0x22, CHR ''}'']"
  by code_simp

text \<open>
  The claim as it is written fails twice on one pair of inputs. The dictionaries
  \<^verbatim>\<open>{"q": "53838f9b6c401c0f"}\<close> and \<^verbatim>\<open>{"q": "b36091030bb9cfd6"}\<close> have different canonical
  JSON and the same key; and that key is not the prefix followed by the MD5 digest in
  hexadecimal, which has 32 digits, but by its first 16 digits.
\<close>

theorem cache_key_collision_counterexample:
  "dumps (JDict [(''q'', JStr ''53838f9b6c401c0f'')])
     \<noteq> dumps (JDict [(''q'', JStr ''b36091030bb9cfd6'')])
   \<and> generate_cache_key ''search:'' (DictParams [(''q'', JStr ''53838f9b6c401c0f'')])
     = generate_cache_key ''search:'' (DictParams [(''q'', JStr ''b36091030bb9cfd6'')])
   \<and> generate_cache_key ''search:'' (DictParams [(''q'', JStr ''53838f9b6c401c0f'')])
     = ''search:3065f2049ca41f19''
   \<and> md5_hexdigest (dumps (JDict [(''q'', JStr ''53838f9b6c401c0f'')]))
     = ''3065f2049ca41f1988082260f9ce33f3''
   \<and> generate_cache_key ''search:'' (DictParams [(''q'', JStr ''53838f9b6c401c0f'')])
     \<noteq> ''search:'' @ md5_hexdigest (dumps (JDict [(''q'', JStr ''53838f9b6c401c0f'')]))"
  by code_simp


section \<open>Privacy redaction: properties\<close>

lemma executive_privacy_masks_date_naissance:
  "apply_filters (JDict [(''role'', JStr ''CEO''), (''person_type'', JStr ''PHYSIQUE''),
                         (''date_naissance'', JStr ''1970-05-15''),
                         (''lieu_naissance'', JStr ''Paris'')]) ''Executive''
   = JDict [(''role'', JStr ''CEO''), (''person_type'', JStr ''PHYSIQUE''),
            (''date_naissance'', JStr ''1970-05'')]"
  by code_simp

text \<open>
  Claim C3. Redacting the protected entity of scenario B must leave the address with postal
  code and city only and give the executive's birth date as \<open>1970-05\<close>. The address comes
  out as claimed; the birth date does not. The executive has neither an \<^verbatim>\<open>is_individual\<close> nor a
  \<^verbatim>\<open>person_type\<close> field, so no rule fires and the full date \<open>1970-05-15\<close> is returned. Marking
  the executive as a natural person does not help: with \<^verbatim>\<open>person_type = PHYSIQUE\<close> (the input
  of the unit test, which expects \<open>1970-05\<close>) the rule masks \<^verbatim>\<open>date_naissance\<close>, not
  \<^verbatim>\<open>birth_date\<close>, and the full date stays; with \<^verbatim>\<open>is_individual = True\<close> the rule removes
  \<^verbatim>\<open>birth_date\<close> before it would mask it, and no birth date comes back at all.
\<close>

theorem redaction_keeps_full_birth_date:
  "filter_company scenario_B =
     Some (JDict [(''siren'', JStr ''987654321''), (''privacy_status'', JStr ''P''),
                  (''address'', JDict [(''postal_code'', JStr ''75001''), (''city'', JStr ''Paris'')]),
                  (''executives'', JList [JDict [(''role'', JStr ''CEO''), (''name'', JStr ''D''),
                                                 (''birth_date'', JStr ''1970-05-15'')]])])
   \<and> apply_filters (JDict [(''role'', JStr ''CEO''), (''name'', JStr ''Dupont''),
                           (''first_name'', JStr ''Jean''), (''birth_date'', JStr ''1970-05-15''),
                           (''person_type'', JStr ''PHYSIQUE''),
                           (''date_naissance_complete'', JStr ''1970-05-15''),
                           (''lieu_naissance'', JStr ''Paris'')]) ''Executive''
     = JDict [(''role'', JStr ''CEO''), (''name'', JStr ''Dupont''), (''first_name'', JStr ''Jean''),
              (''birth_date'', JStr ''1970-05-15''), (''person_type'', JStr ''PHYSIQUE'')]
   \<and> apply_filters (JDict [(''role'', JStr ''CEO''), (''name'', JStr ''D''),
                           (''is_individual'', JBool True),
                           (''birth_date'', JStr ''1970-05-15'')]) ''Executive''
     = JDict [(''role'', JStr ''CEO''), (''name'', JStr ''D''), (''is_individual'', JBool True)]"
  by code_simp


section \<open>Analytic store: properties\<close>

lemmas stmt_defs = create_or_replace_table_as_def select_count_def begin_transaction_def
  drop_table_if_exists_def alter_table_rename_def commit_transaction_def
  insert_or_replace_metadata_def connection_commit_def connection_rollback_def
  run_stmt_def and_then_def load_statements_def load_parquet_sync_def

lemma load_success:
  assumes "snapshot db = None" "tables db t = Some R"
    and "load_parquet_sync fault scan fp t db = (Inr n, db')"
  shows "\<exists>rows. scan = Some rows \<and> n = length rows \<and> tables db' t = Some rows
           \<and> tables db' (t @ ''_staging'') = None \<and> tables db' (t @ ''_old'') = Some R
           \<and> cache_metadata db' t = Some (n, fp) \<and> snapshot db' = None"
  using assms
  by (auto simp: stmt_defs split: option.splits if_splits)

lemma load_failure:
  assumes "snapshot db = None" "tables db t = Some R"
    and "load_parquet_sync fault scan fp t db = (Inl (LoadError i r), db')"
  shows "(i \<le> 7 \<longrightarrow> tables db' t = Some R)
       \<and> (i = 1 \<longrightarrow> db' = db)
       \<and> (2 \<le> i \<and> i \<le> 7 \<longrightarrow> scan \<noteq> None \<and> tables db' (t @ ''_staging'') = scan)
       \<and> (8 \<le> i \<longrightarrow> scan \<noteq> None \<and> tables db' t = scan \<and> tables db' (t @ ''_old'') = Some R)
       \<and> snapshot db' = None \<and> 1 \<le> i \<and> i \<le> 9"
  using assms
  by (auto simp: stmt_defs split: option.splits if_splits)

text \<open>
  Claim C1, as the code has it. For a load into an existing table holding the rows \<open>R\<close>, with
  no transaction open: if the load succeeds, the table holds exactly the rows of the file, the
  count returned is their number, and no staging table remains (the previous rows are in
  \<^verbatim>\<open><table>_old\<close>). If the load fails before the swap is committed (statements 1 to 7), the
  table still holds exactly \<open>R\<close>; if it fails reading the file (statement 1), the whole store is
  as it was, so no staging table has been created. A staging table that was created is not
  deleted when a later statement fails, and a failure after the commit leaves the table
  replaced.
\<close>

theorem load_replaces_table_or_keeps_it:
  "snapshot db = None \<and> tables db table_name = Some R \<longrightarrow>
     (case load_parquet_sync fault scan file_path table_name db of
        (Inr n, db') \<Rightarrow>
          (\<exists>rows. scan = Some rows \<and> n = length rows \<and> tables db' table_name = Some rows)
          \<and> tables db' (table_name @ ''_staging'') = None
          \<and> tables db' (table_name @ ''_old'') = Some R
      | (Inl e, db') \<Rightarrow>
          (failed_statement e \<le> 7 \<longrightarrow> tables db' table_name = Some R)
          \<and> (failed_statement e = 1 \<longrightarrow> db' = db)
          \<and> (2 \<le> failed_statement e \<and> failed_statement e \<le> 7
               \<longrightarrow> scan \<noteq> None \<and> tables db' (table_name @ ''_staging'') = scan)
          \<and> (8 \<le> failed_statement e \<longrightarrow> scan \<noteq> None \<and> tables db' table_name = scan))"
proof (intro impI, elim conjE)
  assume a: "snapshot db = None" "tables db table_name = Some R"
  obtain res db' where l: "load_parquet_sync fault scan file_path table_name db = (res, db')"
    by (cases "load_parquet_sync fault scan file_path table_name db")
  show "case load_parquet_sync fault scan file_path table_name db of
        (Inr n, db') \<Rightarrow>
          (\<exists>rows. scan = Some rows \<and> n = length rows \<and> tables db' table_name = Some rows)
          \<and> tables db' (table_name @ ''_staging'') = None
          \<and> tables db' (table_name @ ''_old'') = Some R
      | (Inl e, db') \<Rightarrow>
          (failed_statement e \<le> 7 \<longrightarrow> tables db' table_name = Some R)
          \<and> (failed_statement e = 1 \<longrightarrow> db' = db)
          \<and> (2 \<le> failed_statement e \<and> failed_statement e \<le> 7
               \<longrightarrow> scan \<noteq> None \<and> tables db' (table_name @ ''_staging'') = scan)
          \<and> (8 \<le> failed_statement e \<longrightarrow> scan \<noteq> None \<and> tables db' table_name = scan)"
  proof (cases res)
    case (Inr n)
    with l load_success [OF a, of fault scan file_path n db'] show ?thesis by auto
  next
    case (Inl e)
    obtain i r where e: "e = LoadError i r" by (cases e)
    with Inl l load_failure [OF a, of fault scan file_path i r db'] show ?thesis by auto
  qed
qed

theorem load_replaces_table_or_keeps_it_witness:
  "snapshot (store_with_entities [0..<1000]) = None
   \<and> tables (store_with_entities [0..<1000]) ''entities'' = Some [0..<1000]
   \<and> load_parquet_sync (\<lambda>i. False) None ''entities.parquet'' ''entities''
        (store_with_entities [0..<1000])
      = (Inl (LoadError 1 True), store_with_entities [0..<1000])
   \<and> tables (store_with_entities [0..<1000]) ''entities_staging'' = None
   \<and> length [0..<1000] = 1000
   \<and> (case load_parquet_sync (\<lambda>i. False) None ''entities.parquet'' ''entities''
              (store_with_entities [0..<1000]) of
        (Inr n, db') \<Rightarrow> False
      | (Inl e, db') \<Rightarrow> tables db' ''entities'' = Some [0..<1000]
                          \<and> db' = store_with_entities [0..<1000])"
  using load_replaces_table_or_keeps_it
    [where db = "store_with_entities [0..<1000]" and table_name = "''entities''"
       and R = "[0..<1000]" and fault = "\<lambda>i. False" and scan = None
       and file_path = "''entities.parquet''"]
  by (simp add: store_with_entities_def stmt_defs)

text \<open>
  The claim as it is written fails when a statement after the creation of the staging table
  fails. If the renaming of the table fails (statement 5), the load fails and the table keeps
  its rows, but \<^verbatim>\<open>entities_staging\<close> remains: it was created before the transaction began and
  the handler only rolls back. If the metadata statement fails (statement 8), the load fails
  although the swap is already committed: the table holds the new rows, not the previous ones.
\<close>

theorem failed_load_counterexample:
  "fst (load_parquet_sync (\<lambda>i. i = 5) (Some [7, 8]) ''entities.parquet'' ''entities''
          (store_with_entities [1, 2, 3])) = Inl (LoadError 5 False)
   \<and> tables (snd (load_parquet_sync (\<lambda>i. i = 5) (Some [7, 8]) ''entities.parquet'' ''entities''
          (store_with_entities [1, 2, 3]))) ''entities'' = Some [1, 2, 3]
   \<and> tables (snd (load_parquet_sync (\<lambda>i. i = 5) (Some [7, 8]) ''entities.parquet'' ''entities''
          (store_with_entities [1, 2, 3]))) ''entities_staging'' = Some [7, 8]
   \<and> fst (load_parquet_sync (\<lambda>i. i = 8) (Some [7, 8]) ''entities.parquet'' ''entities''
          (store_with_entities [1, 2, 3])) = Inl (LoadError 8 True)
   \<and> tables (snd (load_parquet_sync (\<lambda>i. i = 8) (Some [7, 8]) ''entities.parquet'' ''entities''
          (store_with_entities [1, 2, 3]))) ''entities'' = Some [7, 8]"
  by (simp add: store_with_entities_def stmt_defs)


end
